theory Spec2Isabelle
  imports Main
begin

section \<open>JavaScript values\<close>

text \<open>
  Decoded JSON. A number is kept when it is integral (\<open>JNum\<close>), which is what the
  schema's \<open>integer\<close> accepts and what \<open>Number::toString\<close> renders in plain decimal;
  non-integral numbers and magnitudes from \<open>1e21\<close> on (exponent rendering) are
  outside the embedding. Strings are byte strings; an object is its list of own properties.
\<close>

datatype json =
    JNull
  | JBool bool
  | JNum int
  | JStr string
  | JArr "json list"
  | JObj "(string \<times> json) list"

text \<open>The condition of an \<open>if (v)\<close>.\<close>

fun truthy :: "json \<Rightarrow> bool" where
  "truthy JNull = False"
| "truthy (JBool b) = b"
| "truthy (JNum n) = (n \<noteq> 0)"
| "truthy (JStr s) = (s \<noteq> [])"
| "truthy (JArr xs) = True"
| "truthy (JObj kvs) = True"

subsection \<open>\<open>Number::toString\<close> and \<open>parseInt\<close>\<close>

definition digit_char :: "nat \<Rightarrow> char" where
  "digit_char d = char_of (48 + d)"

function digits :: "nat \<Rightarrow> string" where
  "digits n = (if n < 10 then [digit_char n] else digits (n div 10) @ [digit_char (n mod 10)])"
  by pat_completeness auto
termination
  by (relation "measure (\<lambda>n. n)") auto

declare digits.simps [simp del]

definition Number_toString :: "int \<Rightarrow> string" where
  "Number_toString n = (if n < 0 then CHR ''-'' # digits (nat (- n)) else digits (nat n))"

text \<open>\<open>ToString\<close> of a value, as \<open>parseInt\<close> and \<open>x.toString()\<close> apply it.\<close>

fun intercalate :: "string \<Rightarrow> string list \<Rightarrow> string" where
  "intercalate sep [] = []"
| "intercalate sep [x] = x"
| "intercalate sep (x # y # ys) = x @ sep @ intercalate sep (y # ys)"

fun js_toString :: "json \<Rightarrow> string" where
  "js_toString JNull = ''null''"
| "js_toString (JBool b) = (if b then ''true'' else ''false'')"
| "js_toString (JNum n) = Number_toString n"
| "js_toString (JStr s) = s"
| "js_toString (JArr xs) =
     intercalate '','' (map (\<lambda>x. if x = JNull then [] else js_toString x) xs)"
| "js_toString (JObj kvs) = ''[object Object]''"

text \<open>
  \<open>parseInt(string, radix)\<close>: leading white space is skipped, one sign is read, a
  \<open>0x\<close> prefix selects radix 16 when the radix is absent or 16, and the longest prefix
  of digits of the radix is the value; no digit at all is \<open>NaN\<close>, here \<open>None\<close>.
\<close>

definition is_ws :: "char \<Rightarrow> bool" where
  "is_ws c = (of_char c \<in> {9, 10, 11, 12, 13, 32 :: nat})"

definition digit_val :: "char \<Rightarrow> nat option" where
  "digit_val c =
     (let k = (of_char c :: nat) in
      if 48 \<le> k \<and> k \<le> 57 then Some (k - 48)
      else if 97 \<le> k \<and> k \<le> 122 then Some (k - 87)
      else if 65 \<le> k \<and> k \<le> 90 then Some (k - 55)
      else None)"

text \<open>The characters \<open>0\<close> to \<open>9\<close>.\<close>

definition dec_digit :: "char \<Rightarrow> bool" where
  "dec_digit c = (48 \<le> (of_char c :: nat) \<and> (of_char c :: nat) \<le> 57)"

definition is_digit :: "nat \<Rightarrow> char \<Rightarrow> bool" where
  "is_digit R c = (case digit_val c of None \<Rightarrow> False | Some d \<Rightarrow> d < R)"

definition digits_value :: "nat \<Rightarrow> string \<Rightarrow> nat" where
  "digits_value R Z = foldl (\<lambda>acc c. acc * R + the (digit_val c)) 0 Z"

definition hex_prefix :: "string \<Rightarrow> bool" where
  "hex_prefix S = (take 2 S = ''0x'' \<or> take 2 S = ''0X'')"

definition parseInt :: "string \<Rightarrow> nat option \<Rightarrow> int option" where
  "parseInt inputString radix =
     (let S = dropWhile is_ws inputString;
          neg = (take 1 S = ''-'');
          S1 = (if take 1 S = ''-'' \<or> take 1 S = ''+'' then drop 1 S else S);
          R0 = (case radix of None \<Rightarrow> 0 | Some r \<Rightarrow> r);
          stripPrefix = (R0 = 0 \<or> R0 = 16);
          hex = (stripPrefix \<and> hex_prefix S1);
          R = (if hex then 16 else if R0 = 0 then 10 else R0);
          S2 = (if hex then drop 2 S1 else S1);
          Z = takeWhile (is_digit R) S2
      in if R < 2 \<or> 36 < R then None
         else if Z = [] then None
         else Some ((if neg then - 1 else 1) * int (digits_value R Z)))"

section \<open>Entities and the store\<close>

record User =
  user_id :: string
  globalRole_name :: string

record TagEntity =
  tag_id :: string
  tag_name :: string

text \<open>
  \<open>WorkflowEntity\<close>. One type serves the stored rows, the entity proposed by the
  caller and the reloaded record, as in the source; a property that is absent or
  \<open>undefined\<close> is \<open>None\<close>. \<open>tags\<close> is the loaded relation, never a column.
\<close>

record WorkflowEntity =
  wf_id :: "int option"
  name :: "string option"
  active :: "bool option"
  nodes :: "json option"
  connections :: "json option"
  settings :: "(string \<times> json) list option"
  hash :: "string option"
  createdAt :: "nat option"
  updatedAt :: "nat option"
  tags :: "TagEntity list option"

record SharedWorkflow =
  sw_userId :: string
  sw_workflowId :: int
  sw_role :: string
  sw_workflow :: "WorkflowEntity option"

text \<open>An id as the callers pass it: \<open>number | string\<close>.\<close>

datatype idval = IdNum int | IdStr string

datatype error =
    ResponseError string "nat option" nat
  | TypeError
  | Rejected string
  | EntityColumnNotFound string

text \<open>
  Calls to the collaborators that change something outside the function, in the order
  they are issued.
\<close>

datatype call =
    Hook string
  | Remove string
  | Add string string
  | Update string WorkflowEntity
  | RemoveRelations string string
  | CreateRelations string "string list" string
  | WorkflowSaved string

record world =
  Workflow_tbl :: "WorkflowEntity list"
  SharedWorkflow_tbl :: "SharedWorkflow list"
  Tag_tbl :: "TagEntity list"
  workflows_tags :: "(int \<times> string) list"
  calls :: "call list"

text \<open>The lookup of \<open>SharedWorkflow.findOne\<close>: \<open>where.workflow.id\<close> and \<open>where.user.id\<close>.\<close>

record shared_where =
  wh_workflow :: "idval option"
  wh_user :: "string option"

text \<open>
  What the function uses and this file does not hold: the configuration, the clock,
  helpers imported from other modules, the hooks and the trigger runtime. \<open>toId\<close> is
  the store's reading of a textual id as a value of the integer id column. A hook, the
  validation and the runtime either complete (\<open>None\<close>) or reject with an error; a hook
  observes the entity it is given. The credential and node-id helpers rewrite the entity
  and complete. The store is data (\<open>world\<close>); its reads complete, and a write to the
  workflow table can reject: \<open>store_rejects\<close> is the store's answer to a write.
\<close>

record env =
  jsonParse :: "string \<Rightarrow> json option"
  getSharedWorkflowIds :: "User \<Rightarrow> int list"
  toId :: "string \<Rightarrow> int option"
  sharing :: bool
  workflowTagsDisabled :: bool
  tablePrefix :: string
  executions_timeout :: int
  now :: nat
  whereClause :: "User \<Rightarrow> string \<Rightarrow> shared_where"
  replaceInvalidCredentials :: "WorkflowEntity \<Rightarrow> WorkflowEntity"
  addNodeIds :: "WorkflowEntity \<Rightarrow> WorkflowEntity"
  externalHooks_run :: "string \<Rightarrow> WorkflowEntity \<Rightarrow> error option"
  validateEntity :: "WorkflowEntity \<Rightarrow> error option"
  runner_remove :: "string \<Rightarrow> error option"
  runner_add :: "string \<Rightarrow> string \<Rightarrow> error option"
  store_rejects :: "string \<Rightarrow> WorkflowEntity \<Rightarrow> error option"

fun id_matches :: "env \<Rightarrow> idval \<Rightarrow> int \<Rightarrow> bool" where
  "id_matches E (IdNum m) n = (m = n)"
| "id_matches E (IdStr s) n = (toId E s = Some n)"

definition has_id :: "env \<Rightarrow> idval \<Rightarrow> WorkflowEntity \<Rightarrow> bool" where
  "has_id E v row = (case wf_id row of None \<Rightarrow> False | Some n \<Rightarrow> id_matches E v n)"

definition shared_matches :: "env \<Rightarrow> shared_where \<Rightarrow> SharedWorkflow \<Rightarrow> bool" where
  "shared_matches E wh r =
     ((case wh_workflow wh of None \<Rightarrow> True | Some v \<Rightarrow> id_matches E v (sw_workflowId r)) \<and>
      (case wh_user wh of None \<Rightarrow> True | Some u \<Rightarrow> sw_userId r = u))"

definition load_workflow :: "world \<Rightarrow> SharedWorkflow \<Rightarrow> SharedWorkflow" where
  "load_workflow w r =
     r\<lparr>sw_workflow := find (\<lambda>x. wf_id x = Some (sw_workflowId r)) (Workflow_tbl w)\<rparr>"

definition SharedWorkflow_findOne ::
  "env \<Rightarrow> shared_where \<Rightarrow> string list \<Rightarrow> world \<Rightarrow> SharedWorkflow option" where
  "SharedWorkflow_findOne E wh rels w =
     map_option (\<lambda>r. if ''workflow'' \<in> set rels then load_workflow w r else r)
       (find (shared_matches E wh) (SharedWorkflow_tbl w))"

definition load_tags :: "world \<Rightarrow> WorkflowEntity \<Rightarrow> WorkflowEntity" where
  "load_tags w row =
     row\<lparr>tags := Some (filter
        (\<lambda>t. case wf_id row of None \<Rightarrow> False
             | Some n \<Rightarrow> (n, tag_id t) \<in> set (workflows_tags w))
        (Tag_tbl w))\<rparr>"

section \<open>getSharing\<close>

definition getSharing_where :: "User \<Rightarrow> idval \<Rightarrow> bool \<Rightarrow> shared_where" where
  "getSharing_where user workflowId allowGlobalOwner =
     (let options_where = \<lparr>wh_workflow = Some workflowId, wh_user = None\<rparr>
      in if \<not> allowGlobalOwner \<or> globalRole_name user \<noteq> ''owner''
         then options_where\<lparr>wh_user := Some (user_id user)\<rparr>
         else options_where)"

definition getSharing ::
  "env \<Rightarrow> User \<Rightarrow> idval \<Rightarrow> string list \<Rightarrow> bool \<Rightarrow> world \<Rightarrow> SharedWorkflow option" where
  "getSharing E user workflowId rels allowGlobalOwner w =
     SharedWorkflow_findOne E (getSharing_where user workflowId allowGlobalOwner) rels w"

section \<open>getMany\<close>

record IGetWorkflowsQueryFilter =
  f_id :: "idval option"
  f_name :: "string option"
  f_active :: "bool option"

definition allowedWorkflowsQueryFilterFields :: "string list" where
  "allowedWorkflowsQueryFilterFields = [''id'', ''name'', ''active'']"

text \<open>
  \<open>jsonSchemaValidate(instance, schemaGetWorkflowsQueryFilter).valid\<close>: the instance is
  an object (not an array), and each of the three properties, where present, has its type.
\<close>

definition schemaGetWorkflowsQueryFilter :: "json \<Rightarrow> bool" where
  "schemaGetWorkflowsQueryFilter instance =
     (case instance of
        JObj kvs \<Rightarrow>
          (case map_of kvs ''id'' of
             None \<Rightarrow> True | Some (JNum n) \<Rightarrow> True | Some (JStr s) \<Rightarrow> True | Some _ \<Rightarrow> False) \<and>
          (case map_of kvs ''name'' of
             None \<Rightarrow> True | Some (JStr s) \<Rightarrow> True | Some _ \<Rightarrow> False) \<and>
          (case map_of kvs ''active'' of
             None \<Rightarrow> True | Some (JBool b) \<Rightarrow> True | Some _ \<Rightarrow> False)
      | _ \<Rightarrow> False)"

definition prune :: "(string \<times> json) list \<Rightarrow> (string \<times> json) list" where
  "prune kvs = filter (\<lambda>kv. fst kv \<in> set allowedWorkflowsQueryFilterFields) kvs"

text \<open>The cast \<open>filterJson as IGetWorkflowsQueryFilter\<close> of a validated object.\<close>

definition as_filter :: "(string \<times> json) list \<Rightarrow> IGetWorkflowsQueryFilter" where
  "as_filter kvs =
     \<lparr>f_id = (case map_of kvs ''id'' of
                Some (JNum n) \<Rightarrow> Some (IdNum n) | Some (JStr s) \<Rightarrow> Some (IdStr s) | _ \<Rightarrow> None),
      f_name = (case map_of kvs ''name'' of Some (JStr s) \<Rightarrow> Some s | _ \<Rightarrow> None),
      f_active = (case map_of kvs ''active'' of Some (JBool b) \<Rightarrow> Some b | _ \<Rightarrow> None)\<rparr>"

definition invalid_filter :: error where
  "invalid_filter =
     ResponseError ''Parameter \"filter\" contained invalid JSON string.'' (Some 500) 500"

text \<open>
  Lines 78 to 101. \<open>jsonParse\<close> throws on text that is not JSON (\<open>None\<close>). A decoded
  string that is not empty has index keys, none of them allowed, and deleting one from a
  string throws in strict mode, inside the same \<open>try\<close>. Numbers, \<open>true\<close> and arrays
  reach the validation and are no object.
\<close>

definition validateFilter :: "env \<Rightarrow> string \<Rightarrow> error + IGetWorkflowsQueryFilter option" where
  "validateFilter E rawFilter =
     (if rawFilter = [] then Inr None
      else case jsonParse E rawFilter of
        None \<Rightarrow> Inl invalid_filter
      | Some filterJson \<Rightarrow>
          if \<not> truthy filterJson then Inr None
          else (case filterJson of
                  JStr s \<Rightarrow> Inl invalid_filter
                | JObj kvs \<Rightarrow>
                    if schemaGetWorkflowsQueryFilter (JObj (prune kvs))
                    then Inr (Some (as_filter (prune kvs)))
                    else Inr None
                | _ \<Rightarrow> Inr None))"

fun id_toString :: "idval \<Rightarrow> string" where
  "id_toString (IdNum n) = Number_toString n"
| "id_toString (IdStr s) = s"

text \<open>Lines 104 to 110: the early return of the safeguard.\<close>

definition safeguard :: "int list \<Rightarrow> IGetWorkflowsQueryFilter option \<Rightarrow> bool" where
  "safeguard sharedWorkflowIds filter0 =
     (case filter0 of
        None \<Rightarrow> False
      | Some f \<Rightarrow>
          (case f_id f of
             None \<Rightarrow> False
           | Some v \<Rightarrow>
               (case parseInt (id_toString v) None of
                  None \<Rightarrow> False
                | Some workflowId \<Rightarrow> workflowId \<noteq> 0 \<and> workflowId \<notin> set sharedWorkflowIds)))"

datatype id_cond = In "int list" | Equal idval

record find_where =
  where_id :: id_cond
  where_name :: "string option"
  where_active :: "bool option"

record FindManyOptions =
  q_select :: "string list"
  q_relations :: "string list option"
  q_where :: find_where

text \<open>
  Lines 112 to 131. In \<open>{ id: In(sharedWorkflowIds), ...filter }\<close> a property of the
  filter replaces the one written before the spread.
\<close>

definition getMany_query ::
  "env \<Rightarrow> int list \<Rightarrow> IGetWorkflowsQueryFilter option \<Rightarrow> FindManyOptions" where
  "getMany_query E sharedWorkflowIds filter0 =
     (let fields = [''id'', ''name'', ''active'', ''createdAt'', ''updatedAt''];
          rels = (if sharing E then [''tags'', ''shared'', ''shared.user'', ''shared.role'']
                  else [''tags''])
      in \<lparr>q_select = (if sharing E then fields @ [''nodes''] else fields),
          q_relations = (if workflowTagsDisabled E then None else Some rels),
          q_where =
            (case filter0 of
               None \<Rightarrow> \<lparr>where_id = In sharedWorkflowIds, where_name = None, where_active = None\<rparr>
             | Some f \<Rightarrow>
                 \<lparr>where_id = (case f_id f of None \<Rightarrow> In sharedWorkflowIds | Some v \<Rightarrow> Equal v),
                  where_name = f_name f,
                  where_active = f_active f\<rparr>)\<rparr>)"

fun id_cond_holds :: "env \<Rightarrow> id_cond \<Rightarrow> WorkflowEntity \<Rightarrow> bool" where
  "id_cond_holds E (In ids) row = (case wf_id row of None \<Rightarrow> False | Some n \<Rightarrow> n \<in> set ids)"
| "id_cond_holds E (Equal v) row = has_id E v row"

definition where_holds :: "env \<Rightarrow> find_where \<Rightarrow> WorkflowEntity \<Rightarrow> bool" where
  "where_holds E wh row =
     (id_cond_holds E (where_id wh) row \<and>
      (case where_name wh of None \<Rightarrow> True | Some s \<Rightarrow> name row = Some s) \<and>
      (case where_active wh of None \<Rightarrow> True | Some b \<Rightarrow> active row = Some b))"

definition Workflow_find :: "env \<Rightarrow> FindManyOptions \<Rightarrow> world \<Rightarrow> WorkflowEntity list" where
  "Workflow_find E query w =
     map (\<lambda>row. case q_relations query of
                  None \<Rightarrow> row
                | Some rels \<Rightarrow> if ''tags'' \<in> set rels then load_tags w row else row)
       (filter (where_holds E (q_where query)) (Workflow_tbl w))"

record listed =
  l_id :: string
  l_rest :: WorkflowEntity

text \<open>Lines 134 to 141; \<open>id.toString()\<close> of a row without id is a \<open>TypeError\<close>.\<close>

definition listing :: "WorkflowEntity list \<Rightarrow> error + listed list" where
  "listing workflows =
     (if None \<in> set (map wf_id workflows) then Inl TypeError
      else Inr (map (\<lambda>workflow.
                  \<lparr>l_id = (case wf_id workflow of None \<Rightarrow> [] | Some n \<Rightarrow> Number_toString n),
                   l_rest = workflow\<lparr>wf_id := None\<rparr>\<rparr>) workflows))"

definition getMany :: "env \<Rightarrow> User \<Rightarrow> string \<Rightarrow> world \<Rightarrow> error + listed list" where
  "getMany E user rawFilter w =
     (let sharedWorkflowIds = getSharedWorkflowIds E user
      in if sharedWorkflowIds = [] then Inr []
         else case validateFilter E rawFilter of
                Inl e \<Rightarrow> Inl e
              | Inr filter0 \<Rightarrow>
                  if safeguard sharedWorkflowIds filter0 then Inr []
                  else listing (Workflow_find E (getMany_query E sharedWorkflowIds filter0) w))"

section \<open>updateWorkflow\<close>

definition log :: "call \<Rightarrow> world \<Rightarrow> world" where
  "log c w = w\<lparr>calls := calls w @ [c]\<rparr>"

definition orElse :: "'a option \<Rightarrow> 'a option \<Rightarrow> 'a option" where
  "orElse a b = (case a of None \<Rightarrow> b | Some x \<Rightarrow> Some x)"

text \<open>
  \<open>Workflow.update(id, partialEntity)\<close> sets the columns the partial entity holds, on
  the row of that id, and returns nothing; the call is awaited and can reject, and then
  the row is as before.

  Modelled from the spec: the columns of \<open>WorkflowEntity\<close>, which is declared outside
  the sources at hand. The spec calls the version/hash marker store-managed: it is no
  column a caller writes, so the store rejects a write whose entity holds a hash and
  never takes a hash from a partial entity. Line 225 takes the hash out of the entity
  before the first write for that reason.
\<close>

definition merge :: "WorkflowEntity \<Rightarrow> WorkflowEntity \<Rightarrow> WorkflowEntity" where
  "merge row p =
     row\<lparr>wf_id := orElse (wf_id p) (wf_id row),
         name := orElse (name p) (name row),
         active := orElse (active p) (active row),
         nodes := orElse (nodes p) (nodes row),
         connections := orElse (connections p) (connections row),
         settings := orElse (settings p) (settings row),
         createdAt := orElse (createdAt p) (createdAt row),
         updatedAt := orElse (updatedAt p) (updatedAt row)\<rparr>"

definition Workflow_update ::
  "env \<Rightarrow> string \<Rightarrow> WorkflowEntity \<Rightarrow> world \<Rightarrow> error option \<times> world" where
  "Workflow_update E workflowId partialEntity w =
     (let w1 = log (Update workflowId partialEntity) w
      in if hash partialEntity \<noteq> None then (Some (EntityColumnNotFound ''hash''), w1)
         else case store_rejects E workflowId partialEntity of
                Some e \<Rightarrow> (Some e, w1)
              | None \<Rightarrow>
                  (None,
                   w1\<lparr>Workflow_tbl :=
                        map (\<lambda>row. if has_id E (IdStr workflowId) row
                                   then merge row partialEntity else row)
                          (Workflow_tbl w1)\<rparr>))"

definition Workflow_findOne :: "env \<Rightarrow> string \<Rightarrow> bool \<Rightarrow> world \<Rightarrow> WorkflowEntity option" where
  "Workflow_findOne E workflowId withTags w =
     map_option (\<lambda>row. if withTags then load_tags w row else row)
       (find (has_id E (IdStr workflowId)) (Workflow_tbl w))"

text \<open>
  Modelled from the spec: \<open>TagHelpers.removeRelations\<close>, \<open>TagHelpers.createRelations\<close>
  and \<open>TagHelpers.sortByRequestOrder\<close>, which the sources at hand import and do not hold.
  The first removes all existing tag associations of the workflow, the second recreates
  associations for exactly the requested tag ids, the third puts already persisted tags
  in the order of the ids the caller supplied.
\<close>

definition removeRelations :: "env \<Rightarrow> string \<Rightarrow> string \<Rightarrow> world \<Rightarrow> world" where
  "removeRelations E workflowId prefix w =
     log (RemoveRelations workflowId prefix)
       (w\<lparr>workflows_tags :=
            filter (\<lambda>r. \<not> id_matches E (IdStr workflowId) (fst r)) (workflows_tags w)\<rparr>)"

definition createRelations :: "env \<Rightarrow> string \<Rightarrow> string list \<Rightarrow> string \<Rightarrow> world \<Rightarrow> world" where
  "createRelations E workflowId tagIds prefix w =
     log (CreateRelations workflowId tagIds prefix)
       (w\<lparr>workflows_tags :=
            workflows_tags w @
            (case toId E workflowId of None \<Rightarrow> [] | Some n \<Rightarrow> map (Pair n) tagIds)\<rparr>)"

definition sortByRequestOrder :: "TagEntity list \<Rightarrow> string list \<Rightarrow> TagEntity list" where
  "sortByRequestOrder tagsDb requestOrder =
     List.map_filter (\<lambda>tagId. find (\<lambda>t. tag_id t = tagId) tagsDb) requestOrder"

text \<open>Lines 194 to 218, on the settings object.\<close>

definition delete_key :: "string \<Rightarrow> (string \<times> json) list \<Rightarrow> (string \<times> json) list" where
  "delete_key k kvs = filter (\<lambda>kv. fst kv \<noteq> k) kvs"

definition delete_DEFAULT :: "string \<Rightarrow> (string \<times> json) list \<Rightarrow> (string \<times> json) list" where
  "delete_DEFAULT k kvs = (if map_of kvs k = Some (JStr ''DEFAULT'') then delete_key k kvs else kvs)"

definition normalizeSettings :: "int \<Rightarrow> (string \<times> json) list \<Rightarrow> (string \<times> json) list" where
  "normalizeSettings timeout s0 =
     (let s1 = delete_DEFAULT ''timezone'' s0;
          s2 = delete_DEFAULT ''saveDataErrorExecution'' s1;
          s3 = delete_DEFAULT ''saveDataSuccessExecution'' s2;
          s4 = delete_DEFAULT ''saveManualExecutions'' s3;
          executionTimeout =
            (case map_of s4 ''executionTimeout'' of None \<Rightarrow> ''undefined'' | Some v \<Rightarrow> js_toString v)
      in if parseInt executionTimeout (Some 10) = Some timeout
         then delete_key ''executionTimeout'' s4 else s4)"

text \<open>
  What a call leaves behind: the value returned or the error thrown, the caller's
  \<open>workflow\<close> object and the \<open>updatedWorkflow\<close> object as the function last wrote
  them, and the world.
\<close>

record outcome =
  result :: "error + WorkflowEntity"
  arg_workflow :: WorkflowEntity
  updated :: "WorkflowEntity option"
  final :: world

definition not_found :: "string \<Rightarrow> nat \<Rightarrow> error" where
  "not_found workflowId status =
     ResponseError (''Workflow with ID \"'' @ workflowId @ ''\" could not be found to be updated.'')
       None status"

text \<open>
  Lines 275 to 285, the \<open>catch\<close>. The write of line 278 is awaited before lines 281
  and 284: when it rejects, its rejection is what the function throws and the reloaded
  record keeps its flag.
\<close>

definition compensate ::
  "env \<Rightarrow> string \<Rightarrow> WorkflowEntity \<Rightarrow> WorkflowEntity \<Rightarrow> error \<Rightarrow> world \<Rightarrow> outcome" where
  "compensate E workflowId workflow updatedWorkflow e w =
     (let workflow' = workflow\<lparr>active := Some False\<rparr>
      in case Workflow_update E workflowId workflow' w of
           (Some e', w') \<Rightarrow>
             \<lparr>result = Inl e', arg_workflow = workflow', updated = Some updatedWorkflow,
              final = w'\<rparr>
         | (None, w') \<Rightarrow>
             \<lparr>result = Inl e, arg_workflow = workflow',
              updated = Some (updatedWorkflow\<lparr>active := Some False\<rparr>), final = w'\<rparr>)"

text \<open>Lines 267 to 288.\<close>

definition reactivate ::
  "env \<Rightarrow> string \<Rightarrow> bool \<Rightarrow> WorkflowEntity \<Rightarrow> WorkflowEntity \<Rightarrow> world \<Rightarrow> outcome" where
  "reactivate E workflowId was_active workflow updatedWorkflow w =
     (if active updatedWorkflow = Some True then
        (let w1 = log (Hook ''workflow.activate'') w
         in case externalHooks_run E ''workflow.activate'' updatedWorkflow of
              Some e \<Rightarrow> compensate E workflowId workflow updatedWorkflow e w1
            | None \<Rightarrow>
                (let mode = (if was_active then ''update'' else ''activate'');
                     w2 = log (Add workflowId mode) w1
                 in case runner_add E workflowId mode of
                      Some e \<Rightarrow> compensate E workflowId workflow updatedWorkflow e w2
                    | None \<Rightarrow>
                        \<lparr>result = Inr updatedWorkflow, arg_workflow = workflow,
                         updated = Some updatedWorkflow, final = w2\<rparr>))
      else \<lparr>result = Inr updatedWorkflow, arg_workflow = workflow,
            updated = Some updatedWorkflow, final = w\<rparr>)"

text \<open>Lines 258 to 262.\<close>

definition reorder :: "WorkflowEntity \<Rightarrow> string list option \<Rightarrow> WorkflowEntity" where
  "reorder updatedWorkflow tagIds =
     (case (tags updatedWorkflow, tagIds) of
        (Some ts, Some requestOrder) \<Rightarrow>
          if ts \<noteq> [] \<and> requestOrder \<noteq> []
          then updatedWorkflow\<lparr>tags := Some (sortByRequestOrder ts requestOrder)\<rparr>
          else updatedWorkflow
      | _ \<Rightarrow> updatedWorkflow)"

text \<open>Lines 250 to 265, then the reactivation.\<close>

definition reloaded ::
  "env \<Rightarrow> User \<Rightarrow> WorkflowEntity \<Rightarrow> string \<Rightarrow> string list option \<Rightarrow> bool \<Rightarrow>
   WorkflowEntity option \<Rightarrow> world \<Rightarrow> outcome" where
  "reloaded E user workflow workflowId tagIds was_active found w =
     (case found of
        None \<Rightarrow>
          \<lparr>result = Inl (not_found workflowId 400), arg_workflow = workflow,
           updated = None, final = w\<rparr>
      | Some updatedWorkflow0 \<Rightarrow>
          (let updatedWorkflow = reorder updatedWorkflow0 tagIds;
               w1 = log (Hook ''workflow.afterUpdate'') w
           in case externalHooks_run E ''workflow.afterUpdate'' updatedWorkflow of
                Some e \<Rightarrow>
                  \<lparr>result = Inl e, arg_workflow = workflow,
                   updated = Some updatedWorkflow, final = w1\<rparr>
              | None \<Rightarrow>
                  reactivate E workflowId was_active workflow updatedWorkflow
                    (log (WorkflowSaved (user_id user)) w1)))"

text \<open>Lines 229 to 236.\<close>

definition syncTags :: "env \<Rightarrow> string \<Rightarrow> string list option \<Rightarrow> world \<Rightarrow> world" where
  "syncTags E workflowId tagIds w =
     (case tagIds of
        None \<Rightarrow> w
      | Some ts \<Rightarrow>
          if workflowTagsDisabled E then w
          else (let w1 = removeRelations E workflowId (tablePrefix E) w
                in if ts \<noteq> [] then createRelations E workflowId ts (tablePrefix E) w1 else w1))"

text \<open>Lines 225 to 248, then the rest.\<close>

definition persist ::
  "env \<Rightarrow> User \<Rightarrow> WorkflowEntity \<Rightarrow> string \<Rightarrow> string list option \<Rightarrow> bool \<Rightarrow> world \<Rightarrow> outcome" where
  "persist E user workflow workflowId tagIds was_active w =
     (let rest = workflow\<lparr>hash := None\<rparr>
      in case Workflow_update E workflowId rest w of
           (Some e, w1) \<Rightarrow>
             \<lparr>result = Inl e, arg_workflow = workflow, updated = None, final = w1\<rparr>
         | (None, w1) \<Rightarrow>
             (let w2 = syncTags E workflowId tagIds w1;
                  found = Workflow_findOne E workflowId (\<not> workflowTagsDisabled E) w2
              in reloaded E user workflow workflowId tagIds was_active found w2))"

text \<open>Lines 194 to 223, then the rest.\<close>

definition normalizeWorkflow :: "env \<Rightarrow> WorkflowEntity \<Rightarrow> WorkflowEntity" where
  "normalizeWorkflow E workflow =
     (case settings workflow of
        None \<Rightarrow> workflow
      | Some s \<Rightarrow> workflow\<lparr>settings := Some (normalizeSettings (executions_timeout E) s)\<rparr>)"

definition normalized ::
  "env \<Rightarrow> User \<Rightarrow> WorkflowEntity \<Rightarrow> string \<Rightarrow> string list option \<Rightarrow> bool \<Rightarrow> world \<Rightarrow> outcome" where
  "normalized E user workflow0 workflowId tagIds was_active w =
     (let workflow = normalizeWorkflow E workflow0
      in case name workflow of
           None \<Rightarrow> persist E user workflow workflowId tagIds was_active w
         | Some n \<Rightarrow>
             if n = [] then persist E user workflow workflowId tagIds was_active w
             else (let workflow' = workflow\<lparr>updatedAt := Some (now E)\<rparr>
                   in case validateEntity E workflow' of
                        Some e \<Rightarrow>
                          \<lparr>result = Inl e, arg_workflow = workflow', updated = None, final = w\<rparr>
                      | None \<Rightarrow> persist E user workflow' workflowId tagIds was_active w))"

text \<open>Lines 182 to 192, then the rest.\<close>

definition authorized ::
  "env \<Rightarrow> User \<Rightarrow> WorkflowEntity \<Rightarrow> string \<Rightarrow> string list option \<Rightarrow> SharedWorkflow \<Rightarrow>
   world \<Rightarrow> outcome" where
  "authorized E user workflow0 workflowId tagIds shared w =
     (let workflow = addNodeIds E (replaceInvalidCredentials E workflow0);
          w1 = log (Hook ''workflow.update'') w
      in case externalHooks_run E ''workflow.update'' workflow of
           Some e \<Rightarrow> \<lparr>result = Inl e, arg_workflow = workflow, updated = None, final = w1\<rparr>
         | None \<Rightarrow>
             (case sw_workflow shared of
                None \<Rightarrow>
                  \<lparr>result = Inl TypeError, arg_workflow = workflow, updated = None, final = w1\<rparr>
              | Some persisted \<Rightarrow>
                  if active persisted = Some True then
                    (let w2 = log (Remove workflowId) w1
                     in case runner_remove E workflowId of
                          Some e \<Rightarrow>
                            \<lparr>result = Inl e, arg_workflow = workflow, updated = None, final = w2\<rparr>
                        | None \<Rightarrow> normalized E user workflow workflowId tagIds True w2)
                  else normalized E user workflow workflowId tagIds False w1))"

text \<open>Lines 152 to 171, then the rest.\<close>

definition updateWorkflow ::
  "env \<Rightarrow> User \<Rightarrow> WorkflowEntity \<Rightarrow> string \<Rightarrow> string list option \<Rightarrow> world \<Rightarrow> outcome" where
  "updateWorkflow E user workflow workflowId tagIds w =
     (case SharedWorkflow_findOne E (whereClause E user workflowId) [''workflow''] w of
        None \<Rightarrow>
          \<lparr>result = Inl (not_found workflowId 404), arg_workflow = workflow,
           updated = None, final = w\<rparr>
      | Some shared \<Rightarrow> authorized E user workflow workflowId tagIds shared w)"

section \<open>Reading the calls of one invocation\<close>

definition issued :: "world \<Rightarrow> outcome \<Rightarrow> call list" where
  "issued w out = drop (length (calls w)) (calls (final out))"

fun is_Update :: "call \<Rightarrow> bool" where
  "is_Update (Update workflowId p) = True"
| "is_Update c = False"

fun is_Remove :: "call \<Rightarrow> bool" where
  "is_Remove (Remove workflowId) = True"
| "is_Remove c = False"

section \<open>A small installation\<close>

text \<open>
  Modelled from the spec: \<open>whereClause\<close>, imported from the package index and not among
  the sources at hand. The spec describes the authorization of an update as the Sharing
  Resolver's lookup: keyed by the workflow id, and constrained by the user's identity
  unless the user's global role is \<open>owner\<close>.
\<close>

definition whereClause_spec :: "User \<Rightarrow> string \<Rightarrow> shared_where" where
  "whereClause_spec user entityId = getSharing_where user (IdStr entityId) True"

definition demo_env :: env where
  "demo_env =
     \<lparr>jsonParse = (\<lambda>s.
        if s = ''{\"id\":0}'' then Some (JObj [(''id'', JNum 0)])
        else if s = ''{\"id\": 3, \"evil\": \"x\"}'' then Some (JObj [(''id'', JNum 3), (''evil'', JStr ''x'')])
        else if s = ''{\"id\": true}'' then Some (JObj [(''id'', JBool True)])
        else None),
      getSharedWorkflowIds = (\<lambda>u. if user_id u = ''alice'' then [1] else []),
      toId = (\<lambda>s. if s = ''0'' then Some 0 else if s = ''1'' then Some 1
                   else if s = ''2'' then Some 2 else None),
      sharing = False,
      workflowTagsDisabled = False,
      tablePrefix = [],
      executions_timeout = 300,
      now = 1000,
      whereClause = whereClause_spec,
      replaceInvalidCredentials = (\<lambda>workflow. workflow),
      addNodeIds = (\<lambda>workflow. workflow),
      externalHooks_run = (\<lambda>hook workflow. None),
      validateEntity = (\<lambda>workflow. None),
      runner_remove = (\<lambda>workflowId. None),
      runner_add = (\<lambda>workflowId mode. None),
      store_rejects = (\<lambda>workflowId partialEntity. None)\<rparr>"

definition alice :: User where
  "alice = \<lparr>user_id = ''alice'', globalRole_name = ''member''\<rparr>"

definition bob :: User where
  "bob = \<lparr>user_id = ''bob'', globalRole_name = ''member''\<rparr>"

definition admin :: User where
  "admin = \<lparr>user_id = ''admin'', globalRole_name = ''owner''\<rparr>"

definition demo_row :: "int \<Rightarrow> string \<Rightarrow> bool \<Rightarrow> WorkflowEntity" where
  "demo_row n nm act =
     \<lparr>wf_id = Some n, name = Some nm, active = Some act, nodes = None, connections = None,
      settings = None, hash = Some ''h0'', createdAt = Some 0, updatedAt = Some 0, tags = None\<rparr>"

definition demo_world :: world where
  "demo_world =
     \<lparr>Workflow_tbl = [demo_row 0 ''W0'' False, demo_row 1 ''W1'' True, demo_row 2 ''W2'' False],
      SharedWorkflow_tbl =
        [\<lparr>sw_userId = ''carol'', sw_workflowId = 0, sw_role = ''owner'', sw_workflow = None\<rparr>,
         \<lparr>sw_userId = ''alice'', sw_workflowId = 1, sw_role = ''owner'', sw_workflow = None\<rparr>,
         \<lparr>sw_userId = ''carol'', sw_workflowId = 2, sw_role = ''owner'', sw_workflow = None\<rparr>],
      Tag_tbl = [\<lparr>tag_id = ''B'', tag_name = ''beta''\<rparr>, \<lparr>tag_id = ''A'', tag_name = ''alpha''\<rparr>],
      workflows_tags = [],
      calls = []\<rparr>"

definition proposal :: WorkflowEntity where
  "proposal =
     \<lparr>wf_id = None, name = Some ''Foo'', active = Some True, nodes = None, connections = None,
      settings = Some [(''timezone'', JStr ''DEFAULT''), (''executionTimeout'', JNum 300)],
      hash = Some ''h1'', createdAt = None, updatedAt = None, tags = None\<rparr>"

definition activation_failed :: error where
  "activation_failed = Rejected ''activation failed''"

definition vetoed :: error where
  "vetoed = Rejected ''update vetoed''"

text \<open>The log after the call is the log before it followed by the calls issued.\<close>

definition extends :: "world \<Rightarrow> outcome \<Rightarrow> bool" where
  "extends w out = (calls (final out) = calls w @ issued w out)"

text \<open>
  What the calls after the deactivation can be: a write is one to this workflow, with the
  given settings, and no call removes triggers.
\<close>

definition later_call :: "string \<Rightarrow> (string \<times> json) list option \<Rightarrow> call \<Rightarrow> bool" where
  "later_call workflowId s c =
     (case c of Update i p \<Rightarrow> i = workflowId \<and> settings p = s | Remove i \<Rightarrow> False | _ \<Rightarrow> True)"

definition veto_env :: env where
  "veto_env =
     demo_env\<lparr>externalHooks_run :=
       (\<lambda>hook workflow. if hook = ''workflow.update'' then Some vetoed else None)\<rparr>"

definition failing_env :: env where
  "failing_env = demo_env\<lparr>runner_add := (\<lambda>workflowId mode. Some activation_failed)\<rparr>"

definition carol :: User where
  "carol = \<lparr>user_id = ''carol'', globalRole_name = ''member''\<rparr>"

definition returned :: WorkflowEntity where
  "returned =
     \<lparr>wf_id = Some 1, name = Some ''Foo'', active = Some True, nodes = None, connections = None,
      settings = Some [], hash = Some ''h0'', createdAt = Some 0, updatedAt = Some 1000,
      tags = Some [\<lparr>tag_id = ''A'', tag_name = ''alpha''\<rparr>, \<lparr>tag_id = ''B'', tag_name = ''beta''\<rparr>]\<rparr>"

section \<open>Decimal rendering read back\<close>

lemma digit_val_digit_char: "d < 10 \<Longrightarrow> digit_val (digit_char d) = Some d"
  by (simp add: digit_val_def digit_char_def Let_def)

lemma of_char_digit_char: "d < 10 \<Longrightarrow> of_char (digit_char d) = 48 + d"
  by (simp add: digit_char_def)

lemma dec_digit_digit_char: "d < 10 \<Longrightarrow> dec_digit (digit_char d)"
  by (simp add: dec_digit_def of_char_digit_char)

lemma digits_dec: "c \<in> set (digits n) \<Longrightarrow> dec_digit c"
proof (induction n rule: digits.induct)
  case (1 n)
  show ?case
  proof (cases "n < 10")
    case True
    with "1.prems" show ?thesis
      by (simp add: digits.simps [of n] dec_digit_digit_char)
  next
    case False
    with "1.prems" have "c \<in> set (digits (n div 10)) \<or> c = digit_char (n mod 10)"
      by (auto simp: digits.simps [of n])
    then show ?thesis
      using "1.IH" False by (auto simp: dec_digit_digit_char)
  qed
qed

lemma digits_not_Nil: "digits n \<noteq> []"
  by (subst digits.simps) simp

lemma dec_digit_props:
  assumes "dec_digit c"
  shows "is_digit 10 c" "\<not> is_ws c" "c \<noteq> CHR ''-''" "c \<noteq> CHR ''+''"
    "c \<noteq> CHR ''x''" "c \<noteq> CHR ''X''"
  using assms by (auto simp: dec_digit_def is_digit_def digit_val_def Let_def is_ws_def)

lemma digits_value_snoc:
  "digits_value R (Z @ [c]) = digits_value R Z * R + the (digit_val c)"
  by (simp add: digits_value_def)

lemma digits_value_digits: "digits_value 10 (digits n) = n"
proof (induction n rule: digits.induct)
  case (1 n)
  show ?case
  proof (cases "n < 10")
    case True
    then show ?thesis
      by (simp add: digits.simps [of n] digits_value_def digit_val_digit_char)
  next
    case False
    then have "digits_value 10 (digits n) = digits_value 10 (digits (n div 10)) * 10 + n mod 10"
      by (simp add: digits.simps [of n] digits_value_snoc digit_val_digit_char)
    with "1.IH" False show ?thesis by simp
  qed
qed

lemma takeWhile_digits: "takeWhile (is_digit 10) (digits n) = digits n"
  by (simp add: takeWhile_eq_all_conv digits_dec dec_digit_props)

lemma dropWhile_digits: "dropWhile is_ws (digits n) = digits n"
proof (cases "digits n")
  case Nil
  then show ?thesis by simp
next
  case (Cons c cs)
  then have "dec_digit c" using digits_dec [of c n] by simp
  then show ?thesis using Cons by (simp add: dec_digit_props)
qed

lemma take1_digits:
  "take (Suc 0) (digits n) \<noteq> ''-''" "take (Suc 0) (digits n) \<noteq> ''+''"
proof -
  obtain c cs where eq: "digits n = c # cs"
    using digits_not_Nil [of n] by (cases "digits n") auto
  then have "dec_digit c" using digits_dec [of c n] by simp
  then show "take (Suc 0) (digits n) \<noteq> ''-''" "take (Suc 0) (digits n) \<noteq> ''+''"
    using eq dec_digit_props(3,4) by auto
qed

lemma not_hex_digits: "\<not> hex_prefix (digits n)"
proof
  assume h: "hex_prefix (digits n)"
  then obtain c where "take 2 (digits n) = [CHR ''0'', c]" "c = CHR ''x'' \<or> c = CHR ''X''"
    by (auto simp: hex_prefix_def)
  then have "c \<in> set (take 2 (digits n))" by simp
  then have "c \<in> set (digits n)" by (rule in_set_takeD)
  then have "dec_digit c" by (rule digits_dec)
  with \<open>c = CHR ''x'' \<or> c = CHR ''X''\<close> show False
    using dec_digit_props(5,6) by auto
qed

lemma parseInt_digits_10: "parseInt (digits n) (Some 10) = Some (int n)"
  by (simp add: parseInt_def Let_def dropWhile_digits take1_digits
      takeWhile_digits digits_not_Nil digits_value_digits)

lemma parseInt_digits_None: "parseInt (digits n) None = Some (int n)"
  by (simp add: parseInt_def Let_def dropWhile_digits take1_digits not_hex_digits
      takeWhile_digits digits_not_Nil digits_value_digits)

lemma parseInt_neg_digits_10: "parseInt (CHR ''-'' # digits n) (Some 10) = Some (- int n)"
  by (simp add: parseInt_def Let_def is_ws_def
      takeWhile_digits digits_not_Nil digits_value_digits)

lemma parseInt_neg_digits_None: "parseInt (CHR ''-'' # digits n) None = Some (- int n)"
  by (simp add: parseInt_def Let_def is_ws_def not_hex_digits
      takeWhile_digits digits_not_Nil digits_value_digits)

lemma parseInt_Number_toString:
  "parseInt (Number_toString n) (Some 10) = Some n"
  "parseInt (Number_toString n) None = Some n"
  by (simp_all add: Number_toString_def parseInt_digits_10 parseInt_digits_None
      parseInt_neg_digits_10 parseInt_neg_digits_None)

section \<open>The log only grows\<close>

lemma issued_step:
  assumes "calls w1 = calls w @ cs" and "extends w1 out"
  shows "issued w out = cs @ issued w1 out" and "extends w out"
proof -
  define r where "r = issued w1 out"
  have eq: "calls (final out) = calls w @ cs @ r"
    using assms by (simp add: extends_def r_def)
  have "drop (length (calls w)) (calls w @ cs @ r) = cs @ r"
    by simp
  with eq have "issued w out = cs @ r"
    by (simp only: issued_def)
  then show "issued w out = cs @ issued w1 out"
    by (simp only: r_def)
  with eq show "extends w out"
    by (simp only: extends_def r_def)
qed

lemma issued_stop:
  assumes "calls (final out) = calls w @ cs"
  shows "issued w out = cs" and "extends w out"
  using assms by (simp_all add: issued_def extends_def)

lemma calls_log: "calls (log c w) = calls w @ [c]"
  by (simp add: log_def)

lemma calls_Workflow_update:
  "calls (snd (Workflow_update E workflowId p w)) = calls w @ [Update workflowId p]"
  by (simp add: Workflow_update_def log_def Let_def split: option.splits)

lemma Workflow_update_calls:
  "Workflow_update E workflowId p w = (r, w1) \<Longrightarrow> calls w1 = calls w @ [Update workflowId p]"
  using calls_Workflow_update [of E workflowId p w] by simp

lemma calls_syncTags:
  "calls (syncTags E workflowId tagIds w) = calls w @
     (case tagIds of
        None \<Rightarrow> []
      | Some ts \<Rightarrow>
          if workflowTagsDisabled E then []
          else RemoveRelations workflowId (tablePrefix E) #
               (if ts \<noteq> [] then [CreateRelations workflowId ts (tablePrefix E)] else []))"
  by (simp add: syncTags_def removeRelations_def createRelations_def log_def Let_def
      split: option.splits)

lemma final_compensate:
  "final (compensate E workflowId workflow u e w) =
     snd (Workflow_update E workflowId (workflow\<lparr>active := Some False\<rparr>) w)"
  by (simp add: compensate_def Let_def split: prod.splits option.splits)

lemma compensate_calls:
  "calls (final (compensate E workflowId workflow u e w)) =
     calls w @ [Update workflowId (workflow\<lparr>active := Some False\<rparr>)]"
  by (simp only: final_compensate calls_Workflow_update)

lemma extends_compensate: "extends w (compensate E workflowId workflow u e w)"
  by (rule issued_stop(2) [OF compensate_calls])

lemma extends_reactivate: "extends w (reactivate E workflowId was_active workflow u w)"
proof (cases "active u = Some True")
  case False
  then show ?thesis
    by (simp add: reactivate_def extends_def issued_def)
next
  case True
  let ?w1 = "log (Hook ''workflow.activate'') w"
  let ?mode = "if was_active then ''update'' else ''activate''"
  let ?w2 = "log (Add workflowId ?mode) ?w1"
  show ?thesis
  proof (cases "externalHooks_run E ''workflow.activate'' u")
    case (Some e)
    with True have "reactivate E workflowId was_active workflow u w = compensate E workflowId workflow u e ?w1"
      by (simp add: reactivate_def Let_def)
    then show ?thesis
      using issued_step(2) [OF calls_log extends_compensate] by simp
  next
    case None
    show ?thesis
    proof (cases "runner_add E workflowId ?mode")
      case (Some e)
      with None True have "reactivate E workflowId was_active workflow u w = compensate E workflowId workflow u e ?w2"
        by (simp add: reactivate_def Let_def)
      moreover have "extends ?w1 (compensate E workflowId workflow u e ?w2)"
        by (rule issued_step(2) [OF calls_log extends_compensate])
      ultimately show ?thesis
        using issued_step(2) [OF calls_log] by simp
    next
      case N2: None
      with None True have "calls (final (reactivate E workflowId was_active workflow u w)) =
          calls w @ [Hook ''workflow.activate'', Add workflowId ?mode]"
        by (simp add: reactivate_def Let_def calls_log)
      then show ?thesis by (rule issued_stop(2))
    qed
  qed
qed

lemma extends_reloaded: "extends w (reloaded E user workflow workflowId tagIds was_active found w)"
proof (cases found)
  case None
  then show ?thesis by (simp add: reloaded_def extends_def issued_def)
next
  case (Some u0)
  let ?u = "reorder u0 tagIds"
  let ?w1 = "log (Hook ''workflow.afterUpdate'') w"
  show ?thesis
  proof (cases "externalHooks_run E ''workflow.afterUpdate'' ?u")
    case None
    with Some have "reloaded E user workflow workflowId tagIds was_active found w =
        reactivate E workflowId was_active workflow ?u (log (WorkflowSaved (user_id user)) ?w1)"
      by (simp add: reloaded_def Let_def)
    moreover have "extends ?w1 (reactivate E workflowId was_active workflow ?u (log (WorkflowSaved (user_id user)) ?w1))"
      by (rule issued_step(2) [OF calls_log extends_reactivate])
    ultimately show ?thesis
      using issued_step(2) [OF calls_log] by simp
  next
    case E: (Some e)
    with Some have "calls (final (reloaded E user workflow workflowId tagIds was_active found w)) =
        calls w @ [Hook ''workflow.afterUpdate'']"
      by (simp add: reloaded_def Let_def calls_log)
    then show ?thesis by (rule issued_stop(2))
  qed
qed

text \<open>The first write either rejects, and the call ends there, or the call goes on.\<close>

lemma persist_cases:
  obtains (rejected) e w1 where
      "Workflow_update E workflowId (workflow\<lparr>hash := None\<rparr>) w = (Some e, w1)"
      "persist E user workflow workflowId tagIds was_active w =
         \<lparr>result = Inl e, arg_workflow = workflow, updated = None, final = w1\<rparr>"
  | (written) w1 where
      "Workflow_update E workflowId (workflow\<lparr>hash := None\<rparr>) w = (None, w1)"
      "persist E user workflow workflowId tagIds was_active w =
         reloaded E user workflow workflowId tagIds was_active
           (Workflow_findOne E workflowId (\<not> workflowTagsDisabled E)
             (syncTags E workflowId tagIds w1))
           (syncTags E workflowId tagIds w1)"
proof -
  obtain r w1 where u: "Workflow_update E workflowId (workflow\<lparr>hash := None\<rparr>) w = (r, w1)"
    by (cases "Workflow_update E workflowId (workflow\<lparr>hash := None\<rparr>) w")
  show thesis
  proof (cases r)
    case None
    with u have "persist E user workflow workflowId tagIds was_active w =
        reloaded E user workflow workflowId tagIds was_active
          (Workflow_findOne E workflowId (\<not> workflowTagsDisabled E)
            (syncTags E workflowId tagIds w1))
          (syncTags E workflowId tagIds w1)"
      by (simp add: persist_def Let_def)
    with u None show thesis by (intro written [of w1]) simp_all
  next
    case (Some e)
    with u have "persist E user workflow workflowId tagIds was_active w =
        \<lparr>result = Inl e, arg_workflow = workflow, updated = None, final = w1\<rparr>"
      by (simp add: persist_def Let_def)
    with u Some show thesis by (intro rejected [of e w1]) simp_all
  qed
qed

lemma extends_persist: "extends w (persist E user workflow workflowId tagIds was_active w)"
proof (cases rule: persist_cases [of E workflowId workflow w user tagIds was_active])
  case (rejected e w1)
  from Workflow_update_calls [OF rejected(1)] rejected(2)
  have "calls (final (persist E user workflow workflowId tagIds was_active w)) =
      calls w @ [Update workflowId (workflow\<lparr>hash := None\<rparr>)]"
    by simp
  then show ?thesis by (rule issued_stop(2))
next
  case (written w1)
  let ?w2 = "syncTags E workflowId tagIds w1"
  have "extends ?w2 (persist E user workflow workflowId tagIds was_active w)"
    unfolding written(2) by (rule extends_reloaded)
  then have "extends w1 (persist E user workflow workflowId tagIds was_active w)"
    by (rule issued_step(2) [OF calls_syncTags])
  then show ?thesis
    by (rule issued_step(2) [OF Workflow_update_calls [OF written(1)]])
qed

lemma extends_normalized: "extends w (normalized E user workflow workflowId tagIds was_active w)"
  by (simp add: normalized_def Let_def extends_persist split: option.splits)
    (simp add: extends_def issued_def)

lemma extends_authorized: "extends w (authorized E user workflow0 workflowId tagIds shared w)"
proof -
  let ?workflow = "addNodeIds E (replaceInvalidCredentials E workflow0)"
  let ?w1 = "log (Hook ''workflow.update'') w"
  let ?w2 = "log (Remove workflowId) ?w1"
  let ?out = "authorized E user workflow0 workflowId tagIds shared w"
  have a: "extends w out" if "extends ?w1 out" for out
    using that by (rule issued_step(2) [OF calls_log])
  have b: "extends w out" if "extends ?w2 out" for out
    by (rule a, rule issued_step(2) [OF calls_log that])
  have c: "extends ?w1 out" if "final out = ?w1" for out
    using that by (simp add: extends_def issued_def)
  have d: "extends ?w2 out" if "final out = ?w2" for out
    using that by (simp add: extends_def issued_def)
  show ?thesis
  proof (cases "externalHooks_run E ''workflow.update'' ?workflow")
    case (Some e)
    then have "final ?out = ?w1" by (simp add: authorized_def Let_def)
    then show ?thesis by (intro a c)
  next
    case None
    show ?thesis
    proof (cases "sw_workflow shared")
      case N: None
      with None have "final ?out = ?w1" by (simp add: authorized_def Let_def)
      then show ?thesis by (intro a c)
    next
      case (Some persisted)
      show ?thesis
      proof (cases "active persisted = Some True")
        case False
        with None Some have "?out = normalized E user ?workflow workflowId tagIds False ?w1"
          by (simp add: authorized_def Let_def)
        then show ?thesis using a [OF extends_normalized] by simp
      next
        case True
        show ?thesis
        proof (cases "runner_remove E workflowId")
          case R: None
          with None Some True have "?out = normalized E user ?workflow workflowId tagIds True ?w2"
            by (simp add: authorized_def Let_def)
          then show ?thesis using b [OF extends_normalized] by simp
        next
          case R: (Some e)
          with None Some True have "final ?out = ?w2"
            by (simp add: authorized_def Let_def)
          then show ?thesis by (intro b d)
        qed
      qed
    qed
  qed
qed

lemma extends_updateWorkflow: "extends w (updateWorkflow E user workflow workflowId tagIds w)"
  by (simp add: updateWorkflow_def extends_authorized split: option.splits)
    (simp add: extends_def issued_def)

lemma find_None_conv: "(find P xs = None) = (\<forall>x\<in>set xs. \<not> P x)"
  by (auto simp: find_None_iff)

section \<open>The Sharing Resolver\<close>

text \<open>
  Claim C8. \<open>getSharing\<close> looks a share record up by the workflow id. When
  \<open>allowGlobalOwner\<close> is true and the user's global role is \<open>owner\<close>, the lookup has
  no constraint on the user, so that a share record of the workflow matches whoever holds
  it; otherwise the record must also be the user's own. When no record matches, the result
  is the value \<open>None\<close>: the function has no error to throw.
\<close>

theorem getSharing_lookup:
  "wh_workflow (getSharing_where user workflowId allowGlobalOwner) = Some workflowId \<and>
   wh_user (getSharing_where user workflowId allowGlobalOwner) =
     (if allowGlobalOwner \<and> globalRole_name user = ''owner'' then None else Some (user_id user)) \<and>
   (getSharing E user workflowId rels allowGlobalOwner w = None) =
     (\<forall>r \<in> set (SharedWorkflow_tbl w).
        \<not> (id_matches E workflowId (sw_workflowId r) \<and>
           (allowGlobalOwner \<and> globalRole_name user = ''owner'' \<or> sw_userId r = user_id user))) \<and>
   (\<forall>r. getSharing E user workflowId rels allowGlobalOwner w = Some r \<longrightarrow>
        id_matches E workflowId (sw_workflowId r) \<and>
        (allowGlobalOwner \<and> globalRole_name user = ''owner'' \<or> sw_userId r = user_id user))"
proof -
  let ?wh = "getSharing_where user workflowId allowGlobalOwner"
  let ?bypass = "allowGlobalOwner \<and> globalRole_name user = ''owner''"
  have wh: "wh_workflow ?wh = Some workflowId"
    "wh_user ?wh = (if ?bypass then None else Some (user_id user))"
    by (auto simp: getSharing_where_def Let_def)
  have m: "shared_matches E ?wh r =
      (id_matches E workflowId (sw_workflowId r) \<and> (?bypass \<or> sw_userId r = user_id user))" for r
    by (auto simp: shared_matches_def wh)
  have none: "(getSharing E user workflowId rels allowGlobalOwner w = None) =
      (\<forall>r \<in> set (SharedWorkflow_tbl w). \<not> shared_matches E ?wh r)"
    by (simp add: getSharing_def SharedWorkflow_findOne_def find_None_conv)
  have some: "id_matches E workflowId (sw_workflowId r) \<and> (?bypass \<or> sw_userId r = user_id user)"
    if "getSharing E user workflowId rels allowGlobalOwner w = Some r" for r
  proof -
    from that obtain r0 where f: "find (shared_matches E ?wh) (SharedWorkflow_tbl w) = Some r0"
      and r: "r = (if ''workflow'' \<in> set rels then load_workflow w r0 else r0)"
      by (auto simp: getSharing_def SharedWorkflow_findOne_def)
    from f have "shared_matches E ?wh r0"
      by (auto simp: find_Some_iff)
    then have "id_matches E workflowId (sw_workflowId r0) \<and> (?bypass \<or> sw_userId r0 = user_id user)"
      by (simp only: m)
    moreover have "sw_workflowId r = sw_workflowId r0" "sw_userId r = sw_userId r0"
      using r by (simp_all add: load_workflow_def)
    ultimately show ?thesis by simp
  qed
  show ?thesis
    using wh none some by (simp only: m) blast
qed

theorem getSharing_lookup_witness:
  "getSharing demo_env admin (IdNum 1) [''workflow''] True demo_world \<noteq> None \<and>
   getSharing demo_env admin (IdNum 1) [''workflow''] False demo_world = None \<and>
   getSharing demo_env bob (IdNum 1) [''workflow''] True demo_world = None \<and>
   map_option sw_userId (getSharing demo_env alice (IdStr ''1'') [''workflow''] True demo_world) = Some ''alice''"
  using getSharing_lookup [of admin "IdNum 1" True demo_env "[''workflow'']" demo_world]
    getSharing_lookup [of admin "IdNum 1" False demo_env "[''workflow'']" demo_world]
    getSharing_lookup [of bob "IdNum 1" True demo_env "[''workflow'']" demo_world]
  by (simp add: demo_world_def demo_env_def admin_def bob_def alice_def getSharing_def
      SharedWorkflow_findOne_def getSharing_where_def shared_matches_def load_workflow_def)

section \<open>Authorization of an update\<close>

text \<open>
  Claim C2. When no share record matches the lookup that \<open>whereClause\<close> builds for the
  user and the workflow id, \<open>updateWorkflow\<close> throws the \<open>ResponseError\<close> with HTTP
  status 404, whatever the proposed entity is; the entity, the store and the log of calls
  are as before the call. The error names the workflow id only, so a workflow that does
  not exist and one that is not shared with the user give the same outcome.
\<close>

theorem updateWorkflow_not_shared:
  assumes "\<forall>r \<in> set (SharedWorkflow_tbl w). \<not> shared_matches E (whereClause E user workflowId) r"
  shows "updateWorkflow E user workflow workflowId tagIds w =
      \<lparr>result = Inl (ResponseError
          (''Workflow with ID \"'' @ workflowId @ ''\" could not be found to be updated.'') None 404),
       arg_workflow = workflow, updated = None, final = w\<rparr>"
proof -
  have "find (shared_matches E (whereClause E user workflowId)) (SharedWorkflow_tbl w) = None"
    using assms by (simp add: find_None_conv)
  then show ?thesis
    by (simp add: updateWorkflow_def SharedWorkflow_findOne_def not_found_def)
qed

theorem updateWorkflow_not_shared_witness:
  "list_all (\<lambda>r. \<not> shared_matches demo_env (whereClause demo_env bob ''1'') r)
     (SharedWorkflow_tbl demo_world) \<and>
   list_all (\<lambda>r. \<not> shared_matches demo_env (whereClause demo_env bob ''7'') r)
     (SharedWorkflow_tbl demo_world) \<and>
   result (updateWorkflow demo_env bob proposal ''1'' None demo_world) = Inl (not_found ''1'' 404) \<and>
   result (updateWorkflow demo_env bob proposal ''7'' None demo_world) = Inl (not_found ''7'' 404) \<and>
   final (updateWorkflow demo_env bob proposal ''1'' None demo_world) = demo_world"
proof -
  have a: "\<forall>r \<in> set (SharedWorkflow_tbl demo_world).
      \<not> shared_matches demo_env (whereClause demo_env bob ''1'') r"
    by (simp add: demo_world_def demo_env_def bob_def whereClause_spec_def getSharing_where_def
        shared_matches_def)
  have b: "\<forall>r \<in> set (SharedWorkflow_tbl demo_world).
      \<not> shared_matches demo_env (whereClause demo_env bob ''7'') r"
    by (simp add: demo_world_def demo_env_def bob_def whereClause_spec_def getSharing_where_def
        shared_matches_def)
  show ?thesis
    using a b updateWorkflow_not_shared [OF a, of proposal None]
      updateWorkflow_not_shared [OF b, of proposal None]
    by (simp add: not_found_def list_all_iff)
qed

section \<open>Listing\<close>

lemma id_cond_holds_id: "id_cond_holds E c row \<Longrightarrow> wf_id row \<noteq> None"
  by (cases c) (auto simp: has_id_def split: option.splits)

lemma Workflow_find_ids:
  assumes "row \<in> set (Workflow_find E q w)"
  shows "wf_id row \<noteq> None"
proof -
  from assms obtain row0 where r0: "row0 \<in> set (Workflow_tbl w)"
      "where_holds E (q_where q) row0"
      and row: "row = row0 \<or> row = load_tags w row0"
    by (auto simp: Workflow_find_def split: option.splits if_splits)
  from r0 have "wf_id row0 \<noteq> None"
    by (auto simp: where_holds_def dest: id_cond_holds_id)
  moreover have "wf_id (load_tags w row0) = wf_id row0"
    by (simp add: load_tags_def)
  ultimately show ?thesis using row by auto
qed

lemma listing_Workflow_find: "\<not> isl (listing (Workflow_find E q w))"
proof -
  have "None \<notin> set (map wf_id (Workflow_find E q w))"
    using Workflow_find_ids [of _ E q w] by force
  then show ?thesis
    by (simp add: listing_def)
qed

lemma set_prune: "fst ` set (prune kvs) \<subseteq> {''id'', ''name'', ''active''}"
  by (auto simp: prune_def allowedWorkflowsQueryFilterFields_def)

text \<open>
  Claim C7. In the validation of the filter, the decoded object keeps exactly its
  properties named \<open>id\<close>, \<open>name\<close> or \<open>active\<close> and the schema is applied to what is
  kept; an object that fails the schema leaves no filter, and the listing is the one of a
  call without filter, which is no error; text that \<open>jsonParse\<close> rejects is the
  \<open>ResponseError\<close> with status 500.
\<close>

theorem validateFilter_outcomes:
  "(rawFilter \<noteq> [] \<and> jsonParse E rawFilter = Some (JObj kvs) \<longrightarrow>
      prune kvs = filter (\<lambda>kv. fst kv \<in> {''id'', ''name'', ''active''}) kvs \<and>
      validateFilter E rawFilter =
        (if schemaGetWorkflowsQueryFilter (JObj (prune kvs))
         then Inr (Some (as_filter (prune kvs))) else Inr None)) \<and>
   (rawFilter \<noteq> [] \<and> jsonParse E rawFilter = Some (JObj kvs) \<and>
    \<not> schemaGetWorkflowsQueryFilter (JObj (prune kvs)) \<longrightarrow>
      getMany E user rawFilter w = getMany E user [] w \<and>
      \<not> isl (getMany E user rawFilter w)) \<and>
   (rawFilter \<noteq> [] \<and> jsonParse E rawFilter = None \<longrightarrow>
      validateFilter E rawFilter =
        Inl (ResponseError ''Parameter \"filter\" contained invalid JSON string.'' (Some 500) 500) \<and>
      (getSharedWorkflowIds E user \<noteq> [] \<longrightarrow>
         getMany E user rawFilter w =
           Inl (ResponseError ''Parameter \"filter\" contained invalid JSON string.'' (Some 500) 500)))"
proof (intro conjI impI)
  assume a: "rawFilter \<noteq> [] \<and> jsonParse E rawFilter = Some (JObj kvs)"
  show "prune kvs = filter (\<lambda>kv. fst kv \<in> {''id'', ''name'', ''active''}) kvs"
    by (simp add: prune_def allowedWorkflowsQueryFilterFields_def)
  from a show "validateFilter E rawFilter =
      (if schemaGetWorkflowsQueryFilter (JObj (prune kvs))
       then Inr (Some (as_filter (prune kvs))) else Inr None)"
    by (simp add: validateFilter_def)
next
  assume a: "rawFilter \<noteq> [] \<and> jsonParse E rawFilter = Some (JObj kvs) \<and>
    \<not> schemaGetWorkflowsQueryFilter (JObj (prune kvs))"
  then have v: "validateFilter E rawFilter = Inr None"
    by (simp add: validateFilter_def)
  have e: "validateFilter E [] = Inr None"
    by (simp add: validateFilter_def)
  show eq: "getMany E user rawFilter w = getMany E user [] w"
    by (simp add: getMany_def Let_def v e)
  show "\<not> isl (getMany E user rawFilter w)"
    by (simp add: getMany_def v Let_def safeguard_def listing_Workflow_find)
next
  assume a: "rawFilter \<noteq> [] \<and> jsonParse E rawFilter = None"
  then show v: "validateFilter E rawFilter =
      Inl (ResponseError ''Parameter \"filter\" contained invalid JSON string.'' (Some 500) 500)"
    by (simp add: validateFilter_def invalid_filter_def)
  assume "getSharedWorkflowIds E user \<noteq> []"
  then show "getMany E user rawFilter w =
      Inl (ResponseError ''Parameter \"filter\" contained invalid JSON string.'' (Some 500) 500)"
    by (simp add: getMany_def v Let_def)
qed

theorem validateFilter_outcomes_witness:
  "validateFilter demo_env ''{\"id\": 3, \"evil\": \"x\"}'' =
     Inr (Some \<lparr>f_id = Some (IdNum 3), f_name = None, f_active = None\<rparr>) \<and>
   prune [(''id'', JNum 3), (''evil'', JStr ''x'')] = [(''id'', JNum 3)] \<and>
   getMany demo_env alice ''{\"id\": true}'' demo_world = getMany demo_env alice [] demo_world \<and>
   \<not> isl (getMany demo_env alice ''{\"id\": true}'' demo_world) \<and>
   getMany demo_env alice ''not json'' demo_world =
     Inl (ResponseError ''Parameter \"filter\" contained invalid JSON string.'' (Some 500) 500)"
proof -
  have p1: "''{\"id\": 3, \"evil\": \"x\"}'' \<noteq> [] \<and>
      jsonParse demo_env ''{\"id\": 3, \"evil\": \"x\"}'' =
        Some (JObj [(''id'', JNum 3), (''evil'', JStr ''x'')])"
    by (simp add: demo_env_def)
  have pr: "prune [(''id'', JNum 3), (''evil'', JStr ''x'')] = [(''id'', JNum 3)]"
    by (simp add: prune_def allowedWorkflowsQueryFilterFields_def)
  have p2: "''{\"id\": true}'' \<noteq> [] \<and>
      jsonParse demo_env ''{\"id\": true}'' = Some (JObj [(''id'', JBool True)]) \<and>
      \<not> schemaGetWorkflowsQueryFilter (JObj (prune [(''id'', JBool True)]))"
    by (simp add: demo_env_def prune_def allowedWorkflowsQueryFilterFields_def
        schemaGetWorkflowsQueryFilter_def)
  have p3: "''not json'' \<noteq> [] \<and> jsonParse demo_env ''not json'' = None"
    by (simp add: demo_env_def)
  have p4: "getSharedWorkflowIds demo_env alice \<noteq> []"
    by (simp add: demo_env_def alice_def)
  note t1 = validateFilter_outcomes [of "''{\"id\": 3, \"evil\": \"x\"}''" demo_env
      "[(''id'', JNum 3), (''evil'', JStr ''x'')]" alice demo_world]
  note t2 = validateFilter_outcomes [of "''{\"id\": true}''" demo_env "[(''id'', JBool True)]"
      alice demo_world]
  note t3 = validateFilter_outcomes [of "''not json''" demo_env "[]" alice demo_world]
  from t1 p1 have "validateFilter demo_env ''{\"id\": 3, \"evil\": \"x\"}'' =
      (if schemaGetWorkflowsQueryFilter (JObj (prune [(''id'', JNum 3), (''evil'', JStr ''x'')]))
       then Inr (Some (as_filter (prune [(''id'', JNum 3), (''evil'', JStr ''x'')]))) else Inr None)"
    by blast
  then have c1: "validateFilter demo_env ''{\"id\": 3, \"evil\": \"x\"}'' =
      Inr (Some \<lparr>f_id = Some (IdNum 3), f_name = None, f_active = None\<rparr>)"
    by (simp add: pr schemaGetWorkflowsQueryFilter_def as_filter_def)
  from t2 p2 have c2: "getMany demo_env alice ''{\"id\": true}'' demo_world =
      getMany demo_env alice [] demo_world \<and>
      \<not> isl (getMany demo_env alice ''{\"id\": true}'' demo_world)"
    by blast
  from t3 p3 p4 have c3: "getMany demo_env alice ''not json'' demo_world =
      Inl (ResponseError ''Parameter \"filter\" contained invalid JSON string.'' (Some 500) 500)"
    by blast
  from c1 pr c2 c3 show ?thesis by blast
qed

lemma Number_toString_0: "Number_toString 0 = ''0''"
  by code_simp

lemma getMany_blocks_unshared:
  assumes "validateFilter E rawFilter = Inr (Some f)" and "f_id f = Some (IdNum n)"
    and "n \<noteq> 0" and "n \<notin> set (getSharedWorkflowIds E user)"
  shows "getMany E user rawFilter w = Inr []"
  using assms by (simp add: getMany_def Let_def safeguard_def parseInt_Number_toString)

text \<open>
  Claim C5. When the validated filter holds an id, the query's condition on the id is
  the equality with that id, in place of the membership in the caller's shared workflow
  ids; and when \<open>parseInt\<close> of the id is \<open>NaN\<close> or 0 the safeguard does not return,
  the query is issued, and a row satisfies its conditions by its id, name and active flag
  alone, shared with the caller or not.
\<close>

theorem getMany_filter_id_query:
  assumes "getSharedWorkflowIds E user \<noteq> []"
    and "validateFilter E rawFilter = Inr (Some f)"
    and "f_id f = Some v"
  shows "where_id (q_where (getMany_query E (getSharedWorkflowIds E user) (Some f))) = Equal v \<and>
    (parseInt (id_toString v) None = None \<or> parseInt (id_toString v) None = Some 0 \<longrightarrow>
       \<not> safeguard (getSharedWorkflowIds E user) (Some f) \<and>
       getMany E user rawFilter w =
         listing (Workflow_find E (getMany_query E (getSharedWorkflowIds E user) (Some f)) w) \<and>
       where_holds E (q_where (getMany_query E (getSharedWorkflowIds E user) (Some f))) row =
         (has_id E v row \<and>
          (case f_name f of None \<Rightarrow> True | Some s \<Rightarrow> name row = Some s) \<and>
          (case f_active f of None \<Rightarrow> True | Some b \<Rightarrow> active row = Some b)))"
proof (intro conjI impI)
  show q: "where_id (q_where (getMany_query E (getSharedWorkflowIds E user) (Some f))) = Equal v"
    using assms(3) by (simp add: getMany_query_def Let_def)
  assume p: "parseInt (id_toString v) None = None \<or> parseInt (id_toString v) None = Some 0"
  then show s: "\<not> safeguard (getSharedWorkflowIds E user) (Some f)"
    using assms(3) by (auto simp: safeguard_def)
  then show "getMany E user rawFilter w =
      listing (Workflow_find E (getMany_query E (getSharedWorkflowIds E user) (Some f)) w)"
    using assms(1,2) by (simp add: getMany_def Let_def)
  show "where_holds E (q_where (getMany_query E (getSharedWorkflowIds E user) (Some f))) row =
      (has_id E v row \<and>
       (case f_name f of None \<Rightarrow> True | Some s \<Rightarrow> name row = Some s) \<and>
       (case f_active f of None \<Rightarrow> True | Some b \<Rightarrow> active row = Some b))"
    using assms(3) by (simp add: where_holds_def getMany_query_def Let_def)
qed

lemma demo_filter_0:
  "validateFilter demo_env ''{\"id\":0}'' =
     Inr (Some \<lparr>f_id = Some (IdNum 0), f_name = None, f_active = None\<rparr>)"
  by (simp add: validateFilter_def demo_env_def prune_def allowedWorkflowsQueryFilterFields_def
      schemaGetWorkflowsQueryFilter_def as_filter_def)

lemma demo_find_0:
  "Workflow_find demo_env
     (getMany_query demo_env [1] (Some \<lparr>f_id = Some (IdNum 0), f_name = None, f_active = None\<rparr>))
     demo_world = [(demo_row 0 ''W0'' False)\<lparr>tags := Some []\<rparr>]"
  by (simp add: Workflow_find_def getMany_query_def Let_def demo_env_def demo_world_def
      demo_row_def where_holds_def has_id_def load_tags_def)

theorem getMany_filter_id_query_witness:
  "getSharedWorkflowIds demo_env alice = [1] \<and>
   parseInt (id_toString (IdNum 0)) None = Some 0 \<and>
   where_id (q_where (getMany_query demo_env [1]
     (Some \<lparr>f_id = Some (IdNum 0), f_name = None, f_active = None\<rparr>))) = Equal (IdNum 0) \<and>
   getMany demo_env alice ''{\"id\":0}'' demo_world =
     listing [(demo_row 0 ''W0'' False)\<lparr>tags := Some []\<rparr>]"
proof -
  have ids: "getSharedWorkflowIds demo_env alice = [1]"
    by (simp add: demo_env_def alice_def)
  have p: "parseInt (id_toString (IdNum 0)) None = Some 0"
    by (simp add: parseInt_Number_toString)
  have "getSharedWorkflowIds demo_env alice \<noteq> []"
    by (simp add: ids)
  from getMany_filter_id_query [OF this demo_filter_0, of "IdNum 0" demo_world]
  show ?thesis
    using p by (simp add: ids demo_find_0)
qed

text \<open>
  Claim C4 says that a listing whose validated filter holds an id outside the caller's
  shared workflow ids is empty. With the filter \<open>{"id":0}\<close>, a caller whose shared ids
  are \<open>[1]\<close> and a stored workflow 0, the safeguard reads the id 0 as false and the
  listing holds workflow 0.
\<close>

theorem getMany_lists_unshared_0:
  "0 \<notin> set (getSharedWorkflowIds demo_env alice) \<and>
   validateFilter demo_env ''{\"id\":0}'' =
     Inr (Some \<lparr>f_id = Some (IdNum 0), f_name = None, f_active = None\<rparr>) \<and>
   getMany demo_env alice ''{\"id\":0}'' demo_world =
     Inr [\<lparr>l_id = ''0'', l_rest = (demo_row 0 ''W0'' False)\<lparr>wf_id := None, tags := Some []\<rparr>\<rparr>]"
proof -
  have ids: "getSharedWorkflowIds demo_env alice = [1]"
    by (simp add: demo_env_def alice_def)
  have s: "\<not> safeguard [1] (Some \<lparr>f_id = Some (IdNum 0), f_name = None, f_active = None\<rparr>)"
    by (simp add: safeguard_def parseInt_Number_toString)
  have "getMany demo_env alice ''{\"id\":0}'' demo_world =
      listing [(demo_row 0 ''W0'' False)\<lparr>tags := Some []\<rparr>]"
    by (simp add: getMany_def Let_def ids demo_filter_0 s demo_find_0)
  also have "\<dots> = Inr [\<lparr>l_id = ''0'',
      l_rest = (demo_row 0 ''W0'' False)\<lparr>wf_id := None, tags := Some []\<rparr>\<rparr>]"
    by (simp add: listing_def demo_row_def Number_toString_0)
  finally show ?thesis
    by (simp add: ids demo_filter_0)
qed

section \<open>The calls after the deactivation\<close>

lemma later_compensate:
  "list_all (later_call workflowId (settings workflow))
     (issued w (compensate E workflowId workflow u e w))"
  by (simp add: issued_stop(1) [OF compensate_calls] later_call_def)

lemma later_reactivate:
  "list_all (later_call workflowId (settings workflow))
     (issued w (reactivate E workflowId was_active workflow u w))"
proof (cases "active u = Some True")
  case False
  then show ?thesis
    by (simp add: reactivate_def issued_def)
next
  case True
  let ?w1 = "log (Hook ''workflow.activate'') w"
  let ?mode = "if was_active then ''update'' else ''activate''"
  let ?w2 = "log (Add workflowId ?mode) ?w1"
  show ?thesis
  proof (cases "externalHooks_run E ''workflow.activate'' u")
    case (Some e)
    with True have "reactivate E workflowId was_active workflow u w =
        compensate E workflowId workflow u e ?w1"
      by (simp add: reactivate_def Let_def)
    then have eq: "reactivate E workflowId was_active workflow u w =
        compensate E workflowId workflow u e ?w1" .
    have "calls ?w1 = calls w @ [Hook ''workflow.activate'']"
      by (simp add: calls_log)
    from issued_step(1) [OF this extends_compensate, of E workflowId workflow u e]
    show ?thesis
      using later_compensate [of workflowId workflow ?w1 E u e]
      by (simp add: eq later_call_def)
  next
    case None
    show ?thesis
    proof (cases "runner_add E workflowId ?mode")
      case (Some e)
      with None True have eq: "reactivate E workflowId was_active workflow u w =
          compensate E workflowId workflow u e ?w2"
        by (simp add: reactivate_def Let_def)
      have "calls ?w2 = calls w @ [Hook ''workflow.activate'', Add workflowId ?mode]"
        by (simp add: calls_log)
      from issued_step(1) [OF this extends_compensate, of E workflowId workflow u e]
      show ?thesis
        using later_compensate [of workflowId workflow ?w2 E u e]
        by (simp add: eq later_call_def)
    next
      case N2: None
      with None True have "calls (final (reactivate E workflowId was_active workflow u w)) =
          calls w @ [Hook ''workflow.activate'', Add workflowId ?mode]"
        by (simp add: reactivate_def Let_def calls_log)
      from issued_stop(1) [OF this] show ?thesis
        by (simp add: later_call_def)
    qed
  qed
qed

lemma later_reloaded:
  "list_all (later_call workflowId (settings workflow))
     (issued w (reloaded E user workflow workflowId tagIds was_active found w))"
proof (cases found)
  case None
  then show ?thesis by (simp add: reloaded_def issued_def)
next
  case (Some u0)
  let ?u = "reorder u0 tagIds"
  let ?w2 = "log (WorkflowSaved (user_id user)) (log (Hook ''workflow.afterUpdate'') w)"
  show ?thesis
  proof (cases "externalHooks_run E ''workflow.afterUpdate'' ?u")
    case None
    with Some have eq: "reloaded E user workflow workflowId tagIds was_active found w =
        reactivate E workflowId was_active workflow ?u ?w2"
      by (simp add: reloaded_def Let_def)
    have "calls ?w2 = calls w @ [Hook ''workflow.afterUpdate'', WorkflowSaved (user_id user)]"
      by (simp add: calls_log)
    from issued_step(1) [OF this extends_reactivate, of E workflowId was_active workflow ?u]
    show ?thesis
      using later_reactivate [of workflowId workflow ?w2 E was_active ?u]
      by (simp add: eq later_call_def)
  next
    case E: (Some e)
    with Some have "calls (final (reloaded E user workflow workflowId tagIds was_active found w)) =
        calls w @ [Hook ''workflow.afterUpdate'']"
      by (simp add: reloaded_def Let_def calls_log)
    from issued_stop(1) [OF this] show ?thesis
      by (simp add: later_call_def)
  qed
qed

lemma later_persist:
  "list_all (later_call workflowId (settings workflow))
     (issued w (persist E user workflow workflowId tagIds was_active w))"
proof (cases rule: persist_cases [of E workflowId workflow w user tagIds was_active])
  case (rejected e w1)
  from Workflow_update_calls [OF rejected(1)] rejected(2)
  have "calls (final (persist E user workflow workflowId tagIds was_active w)) =
      calls w @ [Update workflowId (workflow\<lparr>hash := None\<rparr>)]"
    by simp
  from issued_stop(1) [OF this] show ?thesis
    by (simp add: later_call_def)
next
  case (written w1)
  let ?w2 = "syncTags E workflowId tagIds w1"
  let ?found = "Workflow_findOne E workflowId (\<not> workflowTagsDisabled E) ?w2"
  let ?out = "reloaded E user workflow workflowId tagIds was_active ?found ?w2"
  define sync where "sync = (case tagIds of
        None \<Rightarrow> []
      | Some ts \<Rightarrow>
          if workflowTagsDisabled E then []
          else RemoveRelations workflowId (tablePrefix E) #
               (if ts \<noteq> [] then [CreateRelations workflowId ts (tablePrefix E)] else []))"
  have c: "calls ?w2 = calls w1 @ sync"
    unfolding sync_def by (rule calls_syncTags)
  have 1: "issued w1 ?out = sync @ issued ?w2 ?out"
    by (rule issued_step(1) [OF c extends_reloaded])
  have 2: "extends w1 ?out"
    by (rule issued_step(2) [OF c extends_reloaded])
  have 3: "issued w ?out = [Update workflowId (workflow\<lparr>hash := None\<rparr>)] @ issued w1 ?out"
    by (rule issued_step(1) [OF Workflow_update_calls [OF written(1)] 2])
  have s: "list_all (later_call workflowId (settings workflow)) sync"
    by (simp add: sync_def later_call_def split: option.splits)
  show ?thesis
    using later_reloaded [of workflowId workflow ?w2 E user tagIds was_active ?found] s
    unfolding written(2) 3 1
    by (simp add: later_call_def)
qed

lemma settings_normalize_stamp:
  "settings (normalizeWorkflow E workflow\<lparr>updatedAt := x\<rparr>) = settings (normalizeWorkflow E workflow)"
  by simp

lemma normalized_cases:
  "normalized E user workflow workflowId tagIds was_active w =
     persist E user (normalizeWorkflow E workflow) workflowId tagIds was_active w \<or>
   normalized E user workflow workflowId tagIds was_active w =
     persist E user (normalizeWorkflow E workflow\<lparr>updatedAt := Some (now E)\<rparr>) workflowId tagIds
       was_active w \<or>
   final (normalized E user workflow workflowId tagIds was_active w) = w"
proof (cases "name (normalizeWorkflow E workflow)")
  case None
  then show ?thesis by (simp add: normalized_def Let_def)
next
  case (Some n)
  show ?thesis
  proof (cases "n = []")
    case True
    with Some show ?thesis by (simp add: normalized_def Let_def)
  next
    case False
    show ?thesis
    proof (cases "validateEntity E (normalizeWorkflow E workflow\<lparr>updatedAt := Some (now E)\<rparr>)")
      case None
      with Some False show ?thesis by (simp add: normalized_def Let_def)
    next
      case V: (Some e)
      with Some False show ?thesis by (simp add: normalized_def Let_def)
    qed
  qed
qed

lemma later_normalized:
  "list_all (later_call workflowId (settings (normalizeWorkflow E workflow)))
     (issued w (normalized E user workflow workflowId tagIds was_active w))"
proof -
  let ?wf = "normalizeWorkflow E workflow"
  let ?wf' = "?wf\<lparr>updatedAt := Some (now E)\<rparr>"
  let ?out = "normalized E user workflow workflowId tagIds was_active w"
  consider (plain) "?out = persist E user ?wf workflowId tagIds was_active w"
    | (stamped) "?out = persist E user ?wf' workflowId tagIds was_active w"
    | (invalid) "final ?out = w"
    using normalized_cases [of E user workflow workflowId tagIds was_active w] by blast
  then show ?thesis
  proof cases
    case plain
    then show ?thesis using later_persist [of workflowId ?wf w E user tagIds was_active] by simp
  next
    case stamped
    then show ?thesis using later_persist [of workflowId ?wf' w E user tagIds was_active] by simp
  next
    case invalid
    then show ?thesis by (simp add: issued_def)
  qed
qed

lemma later_no_Remove: "list_all (later_call workflowId s) cs \<Longrightarrow> filter is_Remove cs = []"
proof (induction cs)
  case Nil
  then show ?case by simp
next
  case (Cons c cs)
  then show ?case by (cases c) (simp_all add: later_call_def)
qed

lemma later_Update:
  "list_all (later_call workflowId s) cs \<Longrightarrow> Update i p \<in> set cs \<Longrightarrow> i = workflowId \<and> settings p = s"
  by (auto simp: list_all_iff later_call_def)

text \<open>The calls of an authorized update, by the outcome of the hook and the stored flag.\<close>

lemma authorized_issued:
  fixes E user workflow0 workflowId tagIds shared w
  defines "workflow \<equiv> addNodeIds E (replaceInvalidCredentials E workflow0)"
  defines "out \<equiv> authorized E user workflow0 workflowId tagIds shared w"
  shows "externalHooks_run E ''workflow.update'' workflow \<noteq> None \<Longrightarrow>
      issued w out = [Hook ''workflow.update'']"
    and "sw_workflow shared = None \<Longrightarrow> issued w out = [Hook ''workflow.update'']"
    and "externalHooks_run E ''workflow.update'' workflow = None \<Longrightarrow>
      sw_workflow shared = Some persisted \<Longrightarrow> active persisted = Some True \<Longrightarrow>
      \<exists>rest. issued w out = Hook ''workflow.update'' # Remove workflowId # rest \<and>
        list_all (later_call workflowId (settings (normalizeWorkflow E workflow))) rest"
    and "externalHooks_run E ''workflow.update'' workflow = None \<Longrightarrow>
      sw_workflow shared = Some persisted \<Longrightarrow> active persisted \<noteq> Some True \<Longrightarrow>
      \<exists>rest. issued w out = Hook ''workflow.update'' # rest \<and>
        list_all (later_call workflowId (settings (normalizeWorkflow E workflow))) rest"
proof -
  let ?w1 = "log (Hook ''workflow.update'') w"
  let ?w2 = "log (Remove workflowId) ?w1"
  have c1: "calls ?w1 = calls w @ [Hook ''workflow.update'']"
    by (simp add: calls_log)
  have c2: "calls ?w2 = calls w @ [Hook ''workflow.update'', Remove workflowId]"
    by (simp add: calls_log)
  show "issued w out = [Hook ''workflow.update'']"
    if "externalHooks_run E ''workflow.update'' workflow \<noteq> None"
  proof -
    from that have "calls (final out) = calls ?w1"
      by (auto simp: out_def workflow_def authorized_def Let_def)
    then show ?thesis using issued_stop(1) [of out w] c1 by simp
  qed
  show "issued w out = [Hook ''workflow.update'']" if "sw_workflow shared = None"
  proof -
    from that have "calls (final out) = calls ?w1"
      by (auto simp: out_def workflow_def authorized_def Let_def split: option.splits)
    then show ?thesis using issued_stop(1) [of out w] c1 by simp
  qed
  show "\<exists>rest. issued w out = Hook ''workflow.update'' # Remove workflowId # rest \<and>
        list_all (later_call workflowId (settings (normalizeWorkflow E workflow))) rest"
    if h: "externalHooks_run E ''workflow.update'' workflow = None"
      "sw_workflow shared = Some persisted" "active persisted = Some True"
  proof (cases "runner_remove E workflowId")
    case (Some e)
    with h have "calls (final out) = calls ?w2"
      by (simp add: out_def workflow_def authorized_def Let_def)
    then have "issued w out = [Hook ''workflow.update'', Remove workflowId]"
      using issued_stop(1) [of out w] c2 by simp
    then show ?thesis by simp
  next
    case None
    with h have eq: "out = normalized E user workflow workflowId tagIds True ?w2"
      by (simp add: out_def workflow_def authorized_def Let_def)
    have "issued w out = [Hook ''workflow.update'', Remove workflowId] @ issued ?w2 out"
      unfolding eq by (rule issued_step(1) [OF c2 extends_normalized])
    moreover have "list_all (later_call workflowId (settings (normalizeWorkflow E workflow)))
        (issued ?w2 out)"
      unfolding eq by (rule later_normalized)
    ultimately show ?thesis by simp
  qed
  show "\<exists>rest. issued w out = Hook ''workflow.update'' # rest \<and>
        list_all (later_call workflowId (settings (normalizeWorkflow E workflow))) rest"
    if h: "externalHooks_run E ''workflow.update'' workflow = None"
      "sw_workflow shared = Some persisted" "active persisted \<noteq> Some True"
  proof -
    from h have eq: "out = normalized E user workflow workflowId tagIds False ?w1"
      by (simp add: out_def workflow_def authorized_def Let_def)
    have "issued w out = [Hook ''workflow.update''] @ issued ?w1 out"
      unfolding eq by (rule issued_step(1) [OF c1 extends_normalized])
    moreover have "list_all (later_call workflowId (settings (normalizeWorkflow E workflow)))
        (issued ?w1 out)"
      unfolding eq by (rule later_normalized)
    ultimately show ?thesis by simp
  qed
qed

text \<open>
  Claim C3, amended. In a call of \<open>updateWorkflow\<close> that finds the share record with
  its workflow: when the stored workflow is active and the hook \<open>workflow.update\<close>
  completes, exactly one call removes the workflow from the trigger runtime, and it comes
  before every write to the store; when the hook rejects, the hook is the only call issued,
  so nothing is removed and nothing is written; when the stored workflow is not active, no
  call removes it.
\<close>

theorem updateWorkflow_deactivates_once:
  assumes "SharedWorkflow_findOne E (whereClause E user workflowId) [''workflow''] w = Some shared"
    and "sw_workflow shared = Some persisted"
  shows "(active persisted = Some True \<and>
      externalHooks_run E ''workflow.update'' (addNodeIds E (replaceInvalidCredentials E workflow)) = None \<longrightarrow>
        filter is_Remove (issued w (updateWorkflow E user workflow workflowId tagIds w)) =
          [Remove workflowId] \<and>
        Remove workflowId \<in> set (takeWhile (\<lambda>c. \<not> is_Update c)
          (issued w (updateWorkflow E user workflow workflowId tagIds w)))) \<and>
    (externalHooks_run E ''workflow.update'' (addNodeIds E (replaceInvalidCredentials E workflow)) \<noteq> None \<longrightarrow>
        issued w (updateWorkflow E user workflow workflowId tagIds w) = [Hook ''workflow.update'']) \<and>
    (active persisted \<noteq> Some True \<longrightarrow>
        filter is_Remove (issued w (updateWorkflow E user workflow workflowId tagIds w)) = [])"
proof -
  let ?wf = "addNodeIds E (replaceInvalidCredentials E workflow)"
  have eq: "updateWorkflow E user workflow workflowId tagIds w =
      authorized E user workflow workflowId tagIds shared w"
    using assms(1) by (simp add: updateWorkflow_def)
  note a = authorized_issued [where E = E and ?workflow0.0 = workflow and user = user
      and workflowId = workflowId and tagIds = tagIds and shared = shared and w = w, folded eq]
  show ?thesis
  proof (intro conjI impI)
    assume h: "active persisted = Some True \<and> externalHooks_run E ''workflow.update'' ?wf = None"
    then have h1: "externalHooks_run E ''workflow.update'' ?wf = None"
      and h2: "active persisted = Some True" by simp_all
    from a(3) [OF h1 assms(2) h2] obtain rest where
      r: "issued w (updateWorkflow E user workflow workflowId tagIds w) =
          Hook ''workflow.update'' # Remove workflowId # rest"
        "list_all (later_call workflowId (settings (normalizeWorkflow E ?wf))) rest"
      by blast
    from r show "filter is_Remove (issued w (updateWorkflow E user workflow workflowId tagIds w)) =
        [Remove workflowId]"
      by (simp add: later_no_Remove)
    from r(1) show "Remove workflowId \<in> set (takeWhile (\<lambda>c. \<not> is_Update c)
        (issued w (updateWorkflow E user workflow workflowId tagIds w)))"
      by simp
  next
    assume "externalHooks_run E ''workflow.update'' ?wf \<noteq> None"
    then show "issued w (updateWorkflow E user workflow workflowId tagIds w) = [Hook ''workflow.update'']"
      by (rule a(1))
  next
    assume na: "active persisted \<noteq> Some True"
    show "filter is_Remove (issued w (updateWorkflow E user workflow workflowId tagIds w)) = []"
    proof (cases "externalHooks_run E ''workflow.update'' ?wf")
      case (Some e)
      then have "issued w (updateWorkflow E user workflow workflowId tagIds w) = [Hook ''workflow.update'']"
        by (intro a(1)) simp
      then show ?thesis by simp
    next
      case None
      from a(4) [OF None assms(2) na] obtain rest where
        r: "issued w (updateWorkflow E user workflow workflowId tagIds w) =
            Hook ''workflow.update'' # rest"
          "list_all (later_call workflowId (settings (normalizeWorkflow E ?wf))) rest"
        by blast
      then show ?thesis by (simp add: later_no_Remove)
    qed
  qed
qed

text \<open>The definitions a concrete run unfolds.\<close>

lemmas stage_defs = updateWorkflow_def authorized_def normalized_def persist_def reloaded_def
  reactivate_def compensate_def syncTags_def Workflow_update_def removeRelations_def
  createRelations_def log_def normalizeWorkflow_def normalizeSettings_def delete_DEFAULT_def
  delete_key_def reorder_def Workflow_findOne_def SharedWorkflow_findOne_def load_workflow_def
  load_tags_def shared_matches_def has_id_def merge_def orElse_def whereClause_spec_def
  getSharing_where_def not_found_def

lemmas demo_defs = demo_env_def demo_world_def demo_row_def alice_def proposal_def carol_def
  veto_env_def failing_env_def vetoed_def activation_failed_def

lemma demo_shared_1:
  "SharedWorkflow_findOne demo_env (whereClause demo_env alice ''1'') [''workflow''] demo_world =
     Some \<lparr>sw_userId = ''alice'', sw_workflowId = 1, sw_role = ''owner'',
           sw_workflow = Some (demo_row 1 ''W1'' True)\<rparr>"
  by (simp add: SharedWorkflow_findOne_def load_workflow_def shared_matches_def
      whereClause_spec_def getSharing_where_def demo_defs)

lemma demo_shared_2:
  "SharedWorkflow_findOne demo_env (whereClause demo_env carol ''2'') [''workflow''] demo_world =
     Some \<lparr>sw_userId = ''carol'', sw_workflowId = 2, sw_role = ''owner'',
           sw_workflow = Some (demo_row 2 ''W2'' False)\<rparr>"
  by (simp add: SharedWorkflow_findOne_def load_workflow_def shared_matches_def
      whereClause_spec_def getSharing_where_def demo_defs)

theorem updateWorkflow_deactivates_once_witness:
  "filter is_Remove (issued demo_world (updateWorkflow demo_env alice proposal ''1'' None demo_world)) =
     [Remove ''1''] \<and>
   Remove ''1'' \<in> set (takeWhile (\<lambda>c. \<not> is_Update c)
     (issued demo_world (updateWorkflow demo_env alice proposal ''1'' None demo_world))) \<and>
   filter is_Remove (issued demo_world (updateWorkflow demo_env carol proposal ''2'' None demo_world)) = []"
proof -
  have h: "externalHooks_run demo_env ''workflow.update''
      (addNodeIds demo_env (replaceInvalidCredentials demo_env proposal)) = None"
    by (simp add: demo_env_def)
  have a1: "active (demo_row 1 ''W1'' True) = Some True"
    and a2: "active (demo_row 2 ''W2'' False) \<noteq> Some True"
    by (simp_all add: demo_row_def)
  have s1: "sw_workflow \<lparr>sw_userId = ''alice'', sw_workflowId = 1, sw_role = ''owner'',
      sw_workflow = Some (demo_row 1 ''W1'' True)\<rparr> = Some (demo_row 1 ''W1'' True)"
    and s2: "sw_workflow \<lparr>sw_userId = ''carol'', sw_workflowId = 2, sw_role = ''owner'',
      sw_workflow = Some (demo_row 2 ''W2'' False)\<rparr> = Some (demo_row 2 ''W2'' False)"
    by simp_all
  from updateWorkflow_deactivates_once [OF demo_shared_1 s1, of proposal None]
    updateWorkflow_deactivates_once [OF demo_shared_2 s2, of proposal None]
  show ?thesis
    using h a1 a2 by blast
qed

text \<open>
  Claim C3 as stated fails: the stored workflow 1 is active, the hook \<open>workflow.update\<close>
  rejects the update, and the call ends without any call to the trigger runtime.
\<close>

theorem updateWorkflow_vetoed_no_Remove:
  "map_option (\<lambda>shared. map_option active (sw_workflow shared))
     (SharedWorkflow_findOne veto_env (whereClause veto_env alice ''1'') [''workflow''] demo_world) =
     Some (Some (Some True)) \<and>
   issued demo_world (updateWorkflow veto_env alice proposal ''1'' None demo_world) =
     [Hook ''workflow.update''] \<and>
   filter is_Remove (issued demo_world (updateWorkflow veto_env alice proposal ''1'' None demo_world)) = []"
  by (simp add: issued_def stage_defs demo_defs Let_def)

section \<open>Settings that are written\<close>

lemma map_of_delete_key:
  "map_of (delete_key k kvs) k' = (if k' = k then None else map_of kvs k')"
  by (induction kvs) (auto simp: delete_key_def)

lemma map_of_delete_DEFAULT:
  "map_of (delete_DEFAULT k kvs) k' =
     (if k' = k \<and> map_of kvs k = Some (JStr ''DEFAULT'') then None else map_of kvs k')"
  by (simp add: delete_DEFAULT_def map_of_delete_key)

lemma normalizeSettings_minimal:
  "map_of (normalizeSettings timeout s) ''timezone'' \<noteq> Some (JStr ''DEFAULT'')"
  "map_of (normalizeSettings timeout s) ''saveDataErrorExecution'' \<noteq> Some (JStr ''DEFAULT'')"
  "map_of (normalizeSettings timeout s) ''saveDataSuccessExecution'' \<noteq> Some (JStr ''DEFAULT'')"
  "map_of (normalizeSettings timeout s) ''saveManualExecutions'' \<noteq> Some (JStr ''DEFAULT'')"
  "map_of (normalizeSettings timeout s) ''executionTimeout'' \<noteq> Some (JNum timeout)"
  by (auto simp: normalizeSettings_def Let_def map_of_delete_key map_of_delete_DEFAULT
      parseInt_Number_toString split: option.splits)

lemma updateWorkflow_Update_settings:
  assumes "Update i p \<in> set (issued w (updateWorkflow E user workflow workflowId tagIds w))"
  shows "i = workflowId \<and>
    settings p = settings (normalizeWorkflow E (addNodeIds E (replaceInvalidCredentials E workflow)))"
proof (cases "SharedWorkflow_findOne E (whereClause E user workflowId) [''workflow''] w")
  case None
  then have "final (updateWorkflow E user workflow workflowId tagIds w) = w"
    by (simp add: updateWorkflow_def)
  with assms show ?thesis by (simp add: issued_def)
next
  case (Some shared)
  let ?wf = "addNodeIds E (replaceInvalidCredentials E workflow)"
  let ?out = "updateWorkflow E user workflow workflowId tagIds w"
  have eq: "?out = authorized E user workflow workflowId tagIds shared w"
    using Some by (simp add: updateWorkflow_def)
  note a = authorized_issued [where E = E and ?workflow0.0 = workflow and user = user
      and workflowId = workflowId and tagIds = tagIds and shared = shared and w = w, folded eq]
  consider (stop) "issued w ?out = [Hook ''workflow.update'']"
    | (go) rest where "set (issued w ?out) \<subseteq> {Hook ''workflow.update'', Remove workflowId} \<union> set rest"
        "list_all (later_call workflowId (settings (normalizeWorkflow E ?wf))) rest"
  proof (cases "externalHooks_run E ''workflow.update'' ?wf")
    case H: (Some e)
    then have "issued w ?out = [Hook ''workflow.update'']" by (intro a(1)) simp
    then show ?thesis by (rule stop)
  next
    case None
    show ?thesis
    proof (cases "sw_workflow shared")
      case N: None
      then have "issued w ?out = [Hook ''workflow.update'']" by (rule a(2))
      then show ?thesis by (rule stop)
    next
      case P: (Some persisted)
      show ?thesis
      proof (cases "active persisted = Some True")
        case True
        from a(3) [OF None P True] obtain rest where
          "issued w ?out = Hook ''workflow.update'' # Remove workflowId # rest"
          "list_all (later_call workflowId (settings (normalizeWorkflow E ?wf))) rest"
          by blast
        then show ?thesis by (intro go [of rest]) auto
      next
        case False
        from a(4) [OF None P False] obtain rest where
          "issued w ?out = Hook ''workflow.update'' # rest"
          "list_all (later_call workflowId (settings (normalizeWorkflow E ?wf))) rest"
          by blast
        then show ?thesis by (intro go [of rest]) auto
      qed
    qed
  qed
  then show ?thesis
  proof cases
    case stop
    with assms show ?thesis by simp
  next
    case (go rest)
    with assms have "Update i p \<in> set rest" by auto
    with go(2) show ?thesis by (rule later_Update)
  qed
qed

text \<open>
  Claim C6. A write that \<open>updateWorkflow\<close> issues carries normalized settings: none of
  \<open>timezone\<close>, \<open>saveDataErrorExecution\<close>, \<open>saveDataSuccessExecution\<close> and
  \<open>saveManualExecutions\<close> holds \<open>DEFAULT\<close>, and \<open>executionTimeout\<close> does not hold the
  configured default timeout. In particular the settings
  \<open>{timezone: "DEFAULT", executionTimeout: 300}\<close> with the default 300 are written as the
  empty object.
\<close>

theorem updateWorkflow_writes_minimal_settings:
  assumes "Update i p \<in> set (issued w (updateWorkflow E user workflow workflowId tagIds w))"
    and "settings p = Some s"
  shows "map_of s ''timezone'' \<noteq> Some (JStr ''DEFAULT'') \<and>
    map_of s ''saveDataErrorExecution'' \<noteq> Some (JStr ''DEFAULT'') \<and>
    map_of s ''saveDataSuccessExecution'' \<noteq> Some (JStr ''DEFAULT'') \<and>
    map_of s ''saveManualExecutions'' \<noteq> Some (JStr ''DEFAULT'') \<and>
    map_of s ''executionTimeout'' \<noteq> Some (JNum (executions_timeout E)) \<and>
    normalizeSettings 300 [(''timezone'', JStr ''DEFAULT''), (''executionTimeout'', JNum 300)] = []"
proof -
  let ?wf = "addNodeIds E (replaceInvalidCredentials E workflow)"
  from updateWorkflow_Update_settings [OF assms(1)] assms(2)
  have "settings (normalizeWorkflow E ?wf) = Some s" by simp
  then obtain s0 where "s = normalizeSettings (executions_timeout E) s0"
    by (auto simp: normalizeWorkflow_def split: option.splits)
  moreover have "normalizeSettings 300 [(''timezone'', JStr ''DEFAULT''), (''executionTimeout'', JNum 300)] = []"
    by (simp add: normalizeSettings_def delete_DEFAULT_def delete_key_def Let_def
        parseInt_Number_toString)
  ultimately show ?thesis
    by (simp add: normalizeSettings_minimal)
qed

lemma demo_run_calls:
  "issued demo_world (updateWorkflow demo_env alice proposal ''1'' None demo_world) =
     [Hook ''workflow.update'', Remove ''1'',
      Update ''1'' (proposal\<lparr>settings := Some [], hash := None, updatedAt := Some 1000\<rparr>),
      Hook ''workflow.afterUpdate'', WorkflowSaved ''alice'', Hook ''workflow.activate'',
      Add ''1'' ''update'']"
  by (simp add: issued_def stage_defs demo_defs Let_def parseInt_Number_toString)

theorem updateWorkflow_writes_minimal_settings_witness:
  "settings proposal = Some [(''timezone'', JStr ''DEFAULT''), (''executionTimeout'', JNum 300)] \<and>
   executions_timeout demo_env = 300 \<and>
   Update ''1'' (proposal\<lparr>settings := Some [], hash := None, updatedAt := Some 1000\<rparr>) \<in>
     set (issued demo_world (updateWorkflow demo_env alice proposal ''1'' None demo_world)) \<and>
   map_of ([] :: (string \<times> json) list) ''timezone'' \<noteq> Some (JStr ''DEFAULT'') \<and>
   map_of ([] :: (string \<times> json) list) ''executionTimeout'' \<noteq> Some (JNum 300)"
proof -
  have m: "Update ''1'' (proposal\<lparr>settings := Some [], hash := None, updatedAt := Some 1000\<rparr>) \<in>
      set (issued demo_world (updateWorkflow demo_env alice proposal ''1'' None demo_world))"
    by (simp add: demo_run_calls)
  have s: "settings (proposal\<lparr>settings := Some [], hash := None, updatedAt := Some 1000\<rparr>) = Some []"
    by simp
  from updateWorkflow_writes_minimal_settings [OF m s] m
  show ?thesis
    by (simp add: proposal_def demo_env_def)
qed

section \<open>A failing activation\<close>

lemma authorized_cases:
  fixes E user workflow0 workflowId tagIds shared w
  defines "workflow \<equiv> addNodeIds E (replaceInvalidCredentials E workflow0)"
  defines "out \<equiv> authorized E user workflow0 workflowId tagIds shared w"
  defines "w1 \<equiv> log (Hook ''workflow.update'') w"
  defines "w2 \<equiv> log (Remove workflowId) (log (Hook ''workflow.update'') w)"
  shows "issued w out = [Hook ''workflow.update''] \<or>
    issued w out = [Hook ''workflow.update'', Remove workflowId] \<or>
    (out = normalized E user workflow workflowId tagIds True w2 \<and>
     issued w out = [Hook ''workflow.update'', Remove workflowId] @ issued w2 out) \<or>
    (out = normalized E user workflow workflowId tagIds False w1 \<and>
     issued w out = [Hook ''workflow.update''] @ issued w1 out)"
proof -
  have c1: "calls w1 = calls w @ [Hook ''workflow.update'']"
    by (simp add: w1_def calls_log)
  have c2: "calls w2 = calls w @ [Hook ''workflow.update'', Remove workflowId]"
    by (simp add: w2_def calls_log)
  note a = authorized_issued [where E = E and ?workflow0.0 = workflow0 and user = user
      and workflowId = workflowId and tagIds = tagIds and shared = shared and w = w,
      folded out_def workflow_def]
  show ?thesis
  proof (cases "externalHooks_run E ''workflow.update'' workflow")
    case (Some e)
    then have "issued w out = [Hook ''workflow.update'']" by (intro a(1)) simp
    then show ?thesis by simp
  next
    case None
    show ?thesis
    proof (cases "sw_workflow shared")
      case N: None
      then have "issued w out = [Hook ''workflow.update'']" by (rule a(2))
      then show ?thesis by simp
    next
      case P: (Some persisted)
      show ?thesis
      proof (cases "active persisted = Some True")
        case True
        show ?thesis
        proof (cases "runner_remove E workflowId")
          case R: (Some e)
          with None P True have "calls (final out) = calls w2"
            by (simp add: out_def workflow_def w2_def authorized_def Let_def)
          then have "issued w out = [Hook ''workflow.update'', Remove workflowId]"
            using issued_stop(1) [of out w] c2 by simp
          then show ?thesis by simp
        next
          case R: None
          with None P True have eq: "out = normalized E user workflow workflowId tagIds True w2"
            by (simp add: out_def workflow_def w2_def authorized_def Let_def)
          have "extends w2 out"
            unfolding eq by (rule extends_normalized)
          from issued_step(1) [OF c2 this] eq show ?thesis by simp
        qed
      next
        case False
        with None P have eq: "out = normalized E user workflow workflowId tagIds False w1"
          by (simp add: out_def workflow_def w1_def authorized_def Let_def)
        have "extends w1 out"
          unfolding eq by (rule extends_normalized)
        from issued_step(1) [OF c1 this] eq show ?thesis by simp
      qed
    qed
  qed
qed

text \<open>The two ways out of the \<open>catch\<close>.\<close>

lemma compensate_written:
  assumes "Workflow_update E workflowId (workflow\<lparr>active := Some False\<rparr>) w = (None, w')"
  shows "compensate E workflowId workflow u e w =
      \<lparr>result = Inl e, arg_workflow = workflow\<lparr>active := Some False\<rparr>,
       updated = Some (u\<lparr>active := Some False\<rparr>), final = w'\<rparr>"
  using assms by (simp add: compensate_def Let_def)

lemma compensate_rejected:
  assumes "Workflow_update E workflowId (workflow\<lparr>active := Some False\<rparr>) w = (Some e', w')"
  shows "compensate E workflowId workflow u e w =
      \<lparr>result = Inl e', arg_workflow = workflow\<lparr>active := Some False\<rparr>,
       updated = Some u, final = w'\<rparr>"
  using assms by (simp add: compensate_def Let_def)

lemma Workflow_update_hash:
  "hash p \<noteq> None \<Longrightarrow>
     Workflow_update E workflowId p w =
       (Some (EntityColumnNotFound ''hash''), log (Update workflowId p) w)"
  by (simp add: Workflow_update_def Let_def)

text \<open>The run with a failing activation, for the proposed entity with its hash.\<close>

lemma failing_run:
  "updateWorkflow failing_env alice proposal ''1'' None demo_world =
     \<lparr>result = Inl (EntityColumnNotFound ''hash''),
      arg_workflow = proposal\<lparr>settings := Some [], active := Some False, updatedAt := Some 1000\<rparr>,
      updated = Some ((demo_row 1 ''Foo'' True)
        \<lparr>settings := Some [], updatedAt := Some 1000, tags := Some []\<rparr>),
      final = demo_world
        \<lparr>Workflow_tbl :=
           [demo_row 0 ''W0'' False,
            (demo_row 1 ''Foo'' True)\<lparr>settings := Some [], updatedAt := Some 1000\<rparr>,
            demo_row 2 ''W2'' False],
         calls :=
           [Hook ''workflow.update'', Remove ''1'',
            Update ''1'' (proposal\<lparr>settings := Some [], hash := None, updatedAt := Some 1000\<rparr>),
            Hook ''workflow.afterUpdate'', WorkflowSaved ''alice'', Hook ''workflow.activate'',
            Add ''1'' ''update'',
            Update ''1''
              (proposal\<lparr>settings := Some [], active := Some False, updatedAt := Some 1000\<rparr>)]\<rparr>\<rparr>"
  by (simp add: stage_defs demo_defs Let_def parseInt_Number_toString)

lemma failing_run_calls:
  "issued demo_world (updateWorkflow failing_env alice proposal ''1'' None demo_world) =
     [Hook ''workflow.update'', Remove ''1'',
      Update ''1'' (proposal\<lparr>settings := Some [], hash := None, updatedAt := Some 1000\<rparr>),
      Hook ''workflow.afterUpdate'', WorkflowSaved ''alice'', Hook ''workflow.activate'',
      Add ''1'' ''update'',
      Update ''1'' (proposal\<lparr>settings := Some [], active := Some False, updatedAt := Some 1000\<rparr>)]"
  by (simp add: issued_def failing_run) (simp add: demo_world_def)

text \<open>
  Claim C1 says that a failing \<open>add\<close> leaves both entity objects inactive, the forced
  flag persisted by a second write, and the activation error thrown. The proposed entity
  comes with its hash \<open>h1\<close>, and line 278 passes the whole entity to the store, which
  line 225 did not: the store rejects the second write, so the function throws the
  store's error in place of the activation error, the reloaded record keeps its active
  flag, and the stored workflow stays active; only the caller's entity is inactive.
\<close>

theorem updateWorkflow_add_fails_write_rejected:
  "runner_add failing_env ''1'' ''update'' = Some activation_failed \<and>
   Add ''1'' ''update'' \<in>
     set (issued demo_world (updateWorkflow failing_env alice proposal ''1'' None demo_world)) \<and>
   result (updateWorkflow failing_env alice proposal ''1'' None demo_world) =
     Inl (EntityColumnNotFound ''hash'') \<and>
   active (arg_workflow (updateWorkflow failing_env alice proposal ''1'' None demo_world)) =
     Some False \<and>
   map_option active (updated (updateWorkflow failing_env alice proposal ''1'' None demo_world)) =
     Some (Some True) \<and>
   map active (filter (has_id failing_env (IdStr ''1''))
     (Workflow_tbl (final (updateWorkflow failing_env alice proposal ''1'' None demo_world)))) =
     [Some True]"
proof -
  have 1: "runner_add failing_env ''1'' ''update'' = Some activation_failed"
    by (simp add: failing_env_def)
  have 2: "Add ''1'' ''update'' \<in>
      set (issued demo_world (updateWorkflow failing_env alice proposal ''1'' None demo_world))"
    by (simp add: failing_run_calls)
  have 3: "result (updateWorkflow failing_env alice proposal ''1'' None demo_world) =
      Inl (EntityColumnNotFound ''hash'')"
    by (simp add: failing_run)
  have 4: "active (arg_workflow (updateWorkflow failing_env alice proposal ''1'' None demo_world)) =
      Some False"
    by (simp add: failing_run)
  have 5: "map_option active
      (updated (updateWorkflow failing_env alice proposal ''1'' None demo_world)) =
      Some (Some True)"
    by (simp add: failing_run demo_row_def)
  have 6: "map active (filter (has_id failing_env (IdStr ''1''))
      (Workflow_tbl (final (updateWorkflow failing_env alice proposal ''1'' None demo_world)))) =
      [Some True]"
    by (simp add: failing_run)
      (simp add: demo_row_def demo_world_def has_id_def failing_env_def demo_env_def)
  from 1 2 3 4 5 6 show ?thesis by simp
qed

text \<open>The same call for the same entity without a hash: the second write completes.\<close>

lemma failing_run_without_hash:
  "updateWorkflow failing_env alice (proposal\<lparr>hash := None\<rparr>) ''1'' None demo_world =
     \<lparr>result = Inl activation_failed,
      arg_workflow = proposal
        \<lparr>settings := Some [], active := Some False, hash := None, updatedAt := Some 1000\<rparr>,
      updated = Some ((demo_row 1 ''Foo'' False)
        \<lparr>settings := Some [], updatedAt := Some 1000, tags := Some []\<rparr>),
      final = demo_world
        \<lparr>Workflow_tbl :=
           [demo_row 0 ''W0'' False,
            (demo_row 1 ''Foo'' False)\<lparr>settings := Some [], updatedAt := Some 1000\<rparr>,
            demo_row 2 ''W2'' False],
         calls :=
           [Hook ''workflow.update'', Remove ''1'',
            Update ''1'' (proposal\<lparr>settings := Some [], hash := None, updatedAt := Some 1000\<rparr>),
            Hook ''workflow.afterUpdate'', WorkflowSaved ''alice'', Hook ''workflow.activate'',
            Add ''1'' ''update'',
            Update ''1''
              (proposal\<lparr>settings := Some [], active := Some False, hash := None,
                 updatedAt := Some 1000\<rparr>)]\<rparr>\<rparr>"
  by (simp add: stage_defs demo_defs Let_def parseInt_Number_toString)

section \<open>The record returned\<close>

lemma map_tag_id_sortByRequestOrder:
  "map tag_id (sortByRequestOrder tagsDb requestOrder) =
     filter (\<lambda>tagId. tagId \<in> tag_id ` set tagsDb) requestOrder"
proof (induction requestOrder)
  case Nil
  show ?case by (simp add: sortByRequestOrder_def map_filter_simps)
next
  case (Cons tagId requestOrder)
  show ?case
  proof (cases "find (\<lambda>t. tag_id t = tagId) tagsDb")
    case None
    then have "tagId \<notin> tag_id ` set tagsDb"
      by (auto simp: find_None_iff)
    with None Cons show ?thesis
      by (simp add: sortByRequestOrder_def map_filter_simps)
  next
    case (Some t)
    then have "tag_id t = tagId" "t \<in> set tagsDb"
      by (auto simp: find_Some_iff)
    then have "tagId \<in> tag_id ` set tagsDb" by auto
    with Some Cons \<open>tag_id t = tagId\<close> show ?thesis
      by (simp add: sortByRequestOrder_def map_filter_simps)
  qed
qed

lemma load_tags_calls: "load_tags (w\<lparr>calls := cs\<rparr>) = load_tags w"
  by (rule ext) (simp add: load_tags_def cong: option.case_cong)

lemma Workflow_findOne_calls:
  "Workflow_findOne E workflowId b (w\<lparr>calls := cs\<rparr>) = Workflow_findOne E workflowId b w"
  by (simp add: Workflow_findOne_def load_tags_calls cong: if_cong)

text \<open>A call that returns a record returns the reloaded one, reordered, and has only logged since.\<close>

lemma reactivate_Inr:
  assumes "result (reactivate E workflowId was_active workflow u w) = Inr r"
  shows "r = u \<and>
    final (reactivate E workflowId was_active workflow u w) =
      w\<lparr>calls := calls (final (reactivate E workflowId was_active workflow u w))\<rparr>"
proof (cases "active u = Some True")
  case False
  with assms show ?thesis
    by (simp add: reactivate_def)
next
  case True
  let ?mode = "if was_active then ''update'' else ''activate''"
  have nc: "result (compensate E workflowId workflow u e' w') \<noteq> Inr r" for e' w'
    by (simp add: compensate_def Let_def split: prod.splits option.splits)
  from assms True nc have h: "externalHooks_run E ''workflow.activate'' u = None"
    by (auto simp: reactivate_def Let_def split: option.splits)
  with assms True nc have a: "runner_add E workflowId ?mode = None"
    by (auto simp: reactivate_def Let_def split: option.splits)
  from True h a assms show ?thesis
    by (auto simp: reactivate_def Let_def log_def)
qed

lemma reloaded_Inr:
  assumes "result (reloaded E user workflow workflowId tagIds was_active found w) = Inr r"
  shows "map_option (\<lambda>u0. reorder u0 tagIds) found = Some r \<and>
    final (reloaded E user workflow workflowId tagIds was_active found w) =
      w\<lparr>calls := calls (final (reloaded E user workflow workflowId tagIds was_active found w))\<rparr>"
proof (cases found)
  case None
  with assms show ?thesis by (simp add: reloaded_def not_found_def)
next
  case (Some u0)
  let ?u = "reorder u0 tagIds"
  let ?w2 = "log (WorkflowSaved (user_id user)) (log (Hook ''workflow.afterUpdate'') w)"
  let ?out = "reloaded E user workflow workflowId tagIds was_active found w"
  from assms Some have h: "externalHooks_run E ''workflow.afterUpdate'' ?u = None"
    by (auto simp: reloaded_def Let_def split: option.splits)
  with Some have eq: "?out = reactivate E workflowId was_active workflow ?u ?w2"
    by (simp add: reloaded_def Let_def)
  from reactivate_Inr [OF assms [unfolded eq]] have "r = ?u"
    and f: "final ?out = ?w2\<lparr>calls := calls (final ?out)\<rparr>"
    unfolding eq by simp_all
  have "?w2\<lparr>calls := calls (final ?out)\<rparr> = w\<lparr>calls := calls (final ?out)\<rparr>"
    by (simp add: log_def)
  with f \<open>r = ?u\<close> Some show ?thesis by simp
qed

lemma persist_Inr:
  assumes "result (persist E user workflow workflowId tagIds was_active w) = Inr r"
  shows "map_option (\<lambda>u0. reorder u0 tagIds)
      (Workflow_findOne E workflowId (\<not> workflowTagsDisabled E)
        (final (persist E user workflow workflowId tagIds was_active w))) = Some r"
proof (cases rule: persist_cases [of E workflowId workflow w user tagIds was_active])
  case (rejected e w1)
  with assms show ?thesis by simp
next
  case (written w1)
  let ?w2 = "syncTags E workflowId tagIds w1"
  let ?found = "Workflow_findOne E workflowId (\<not> workflowTagsDisabled E) ?w2"
  let ?out = "reloaded E user workflow workflowId tagIds was_active ?found ?w2"
  from reloaded_Inr [OF assms [unfolded written(2)]]
  have r: "map_option (\<lambda>u0. reorder u0 tagIds) ?found = Some r"
    and f: "final ?out = ?w2\<lparr>calls := calls (final ?out)\<rparr>"
    by simp_all
  have "Workflow_findOne E workflowId (\<not> workflowTagsDisabled E) (final ?out) = ?found"
    by (subst f) (rule Workflow_findOne_calls)
  with r show ?thesis by (simp add: written(2))
qed

lemma normalized_Inr:
  assumes "result (normalized E user workflow workflowId tagIds was_active w) = Inr r"
  shows "map_option (\<lambda>u0. reorder u0 tagIds)
      (Workflow_findOne E workflowId (\<not> workflowTagsDisabled E)
        (final (normalized E user workflow workflowId tagIds was_active w))) = Some r"
proof (cases "name (normalizeWorkflow E workflow)")
  case None
  with assms persist_Inr [of E user "normalizeWorkflow E workflow" workflowId tagIds was_active w r]
  show ?thesis by (simp add: normalized_def Let_def)
next
  case (Some n)
  show ?thesis
  proof (cases "n = []")
    case True
    with Some assms
      persist_Inr [of E user "normalizeWorkflow E workflow" workflowId tagIds was_active w r]
    show ?thesis by (simp add: normalized_def Let_def)
  next
    case False
    let ?wf' = "normalizeWorkflow E workflow\<lparr>updatedAt := Some (now E)\<rparr>"
    from assms Some False have v: "validateEntity E ?wf' = None"
      by (auto simp: normalized_def Let_def split: option.splits)
    with Some False assms persist_Inr [of E user ?wf' workflowId tagIds was_active w r]
    show ?thesis by (simp add: normalized_def Let_def)
  qed
qed

lemma authorized_Inr:
  assumes "result (authorized E user workflow workflowId tagIds shared w) = Inr r"
  shows "map_option (\<lambda>u0. reorder u0 tagIds)
      (Workflow_findOne E workflowId (\<not> workflowTagsDisabled E)
        (final (authorized E user workflow workflowId tagIds shared w))) = Some r"
proof -
  let ?wf = "addNodeIds E (replaceInvalidCredentials E workflow)"
  let ?w1 = "log (Hook ''workflow.update'') w"
  let ?w2 = "log (Remove workflowId) ?w1"
  let ?out = "authorized E user workflow workflowId tagIds shared w"
  from assms have h: "externalHooks_run E ''workflow.update'' ?wf = None"
    by (auto simp: authorized_def Let_def split: option.splits)
  with assms obtain persisted where p: "sw_workflow shared = Some persisted"
    by (auto simp: authorized_def Let_def split: option.splits)
  show ?thesis
  proof (cases "active persisted = Some True")
    case True
    with assms h p have "runner_remove E workflowId = None"
      by (auto simp: authorized_def Let_def split: option.splits)
    with True h p have "?out = normalized E user ?wf workflowId tagIds True ?w2"
      by (simp add: authorized_def Let_def)
    with assms normalized_Inr [of E user ?wf workflowId tagIds True ?w2 r] show ?thesis by simp
  next
    case False
    with h p have "?out = normalized E user ?wf workflowId tagIds False ?w1"
      by (simp add: authorized_def Let_def)
    with assms normalized_Inr [of E user ?wf workflowId tagIds False ?w1 r] show ?thesis by simp
  qed
qed

lemma updateWorkflow_Inr:
  assumes "result (updateWorkflow E user workflow workflowId tagIds w) = Inr r"
  shows "map_option (\<lambda>u0. reorder u0 tagIds)
      (Workflow_findOne E workflowId (\<not> workflowTagsDisabled E)
        (final (updateWorkflow E user workflow workflowId tagIds w))) = Some r"
proof (cases "SharedWorkflow_findOne E (whereClause E user workflowId) [''workflow''] w")
  case None
  with assms show ?thesis by (simp add: updateWorkflow_def)
next
  case (Some shared)
  with assms authorized_Inr [of E user workflow workflowId tagIds shared w r] show ?thesis
    by (simp add: updateWorkflow_def)
qed

text \<open>
  Claim C9. A call that returns gives back the record the store holds at the end of the
  call, with its tags put in the requested order when both the reloaded tags and the
  requested tag ids are non-empty: the ids of the returned tags are then the requested
  ids that are among the reloaded tags, in the order of the request; otherwise the record
  is returned as reloaded. The order lives on the returned record only: reading the store
  after the call gives the tags in the store's order.
\<close>

theorem updateWorkflow_tag_order:
  assumes "result (updateWorkflow E user workflow workflowId tagIds w) = Inr r"
  shows "\<exists>u0. Workflow_findOne E workflowId (\<not> workflowTagsDisabled E)
        (final (updateWorkflow E user workflow workflowId tagIds w)) = Some u0 \<and>
      (\<forall>ts requestOrder.
          tags u0 = Some ts \<and> ts \<noteq> [] \<and> tagIds = Some requestOrder \<and> requestOrder \<noteq> [] \<longrightarrow>
            r = u0\<lparr>tags := Some (sortByRequestOrder ts requestOrder)\<rparr> \<and>
            map_option (map tag_id) (tags r) =
              Some (filter (\<lambda>tagId. tagId \<in> tag_id ` set ts) requestOrder)) \<and>
      (tags u0 = None \<or> tags u0 = Some [] \<or> tagIds = None \<or> tagIds = Some [] \<longrightarrow> r = u0)"
proof -
  from updateWorkflow_Inr [OF assms] obtain u0 where
    f: "Workflow_findOne E workflowId (\<not> workflowTagsDisabled E)
        (final (updateWorkflow E user workflow workflowId tagIds w)) = Some u0"
    and r: "r = reorder u0 tagIds"
    by auto
  have 1: "r = u0\<lparr>tags := Some (sortByRequestOrder ts requestOrder)\<rparr> \<and>
      map_option (map tag_id) (tags r) =
        Some (filter (\<lambda>tagId. tagId \<in> tag_id ` set ts) requestOrder)"
    if "tags u0 = Some ts \<and> ts \<noteq> [] \<and> tagIds = Some requestOrder \<and> requestOrder \<noteq> []"
    for ts requestOrder
    using that r by (simp add: reorder_def map_tag_id_sortByRequestOrder)
  have 2: "r = u0" if "tags u0 = None \<or> tags u0 = Some [] \<or> tagIds = None \<or> tagIds = Some []"
    using that r by (auto simp: reorder_def split: option.splits)
  from f 1 2 show ?thesis by blast
qed

lemma demo_tags_run:
  "result (updateWorkflow demo_env alice proposal ''1'' (Some [''A'', ''B'']) demo_world) =
     Inr returned"
  "Workflow_findOne demo_env ''1'' (\<not> workflowTagsDisabled demo_env)
     (final (updateWorkflow demo_env alice proposal ''1'' (Some [''A'', ''B'']) demo_world)) =
     Some (returned\<lparr>tags := Some [\<lparr>tag_id = ''B'', tag_name = ''beta''\<rparr>,
                                   \<lparr>tag_id = ''A'', tag_name = ''alpha''\<rparr>]\<rparr>)"
  by (simp_all add: stage_defs demo_defs returned_def sortByRequestOrder_def map_filter_simps
      Let_def parseInt_Number_toString)

theorem updateWorkflow_tag_order_witness:
  "result (updateWorkflow demo_env alice proposal ''1'' (Some [''A'', ''B'']) demo_world) =
     Inr returned \<and>
   map_option (map tag_id) (tags returned) = Some [''A'', ''B''] \<and>
   map_option (\<lambda>u0. map_option (map tag_id) (tags u0))
     (Workflow_findOne demo_env ''1'' (\<not> workflowTagsDisabled demo_env)
       (final (updateWorkflow demo_env alice proposal ''1'' (Some [''A'', ''B'']) demo_world))) =
     Some (Some [''B'', ''A''])"
proof -
  have a: "map_option (map tag_id) (tags returned) = Some [''A'', ''B'']"
    by (simp add: returned_def)
  have b: "map_option (\<lambda>u0. map_option (map tag_id) (tags u0))
     (Workflow_findOne demo_env ''1'' (\<not> workflowTagsDisabled demo_env)
       (final (updateWorkflow demo_env alice proposal ''1'' (Some [''A'', ''B'']) demo_world))) =
     Some (Some [''B'', ''A''])"
    by (simp add: demo_tags_run(2))
  from updateWorkflow_tag_order [OF demo_tags_run(1)] demo_tags_run(1) a b
  show ?thesis by blast
qed

section \<open>The hash in the writes\<close>

lemma hash_merge: "hash (merge row p) = hash row"
  by (simp add: merge_def)

lemma Workflow_tbl_log: "Workflow_tbl (log c w) = Workflow_tbl w"
  by (simp add: log_def)

lemma Workflow_tbl_syncTags: "Workflow_tbl (syncTags E workflowId tagIds w) = Workflow_tbl w"
  by (simp add: syncTags_def removeRelations_def createRelations_def log_def Let_def
      split: option.splits)

lemma hashes_Workflow_update:
  "map hash (Workflow_tbl (snd (Workflow_update E workflowId p w))) = map hash (Workflow_tbl w)"
  by (simp add: Workflow_update_def Let_def log_def hash_merge split: option.splits)

lemma hashes_compensate:
  "map hash (Workflow_tbl (final (compensate E workflowId workflow u e w))) =
     map hash (Workflow_tbl w)"
  by (simp only: final_compensate hashes_Workflow_update)

lemma hashes_reactivate:
  "map hash (Workflow_tbl (final (reactivate E workflowId was_active workflow u w))) =
     map hash (Workflow_tbl w)"
  by (simp add: reactivate_def Let_def hashes_compensate Workflow_tbl_log split: option.splits)

lemma hashes_reloaded:
  "map hash (Workflow_tbl (final (reloaded E user workflow workflowId tagIds was_active found w))) =
     map hash (Workflow_tbl w)"
  by (simp add: reloaded_def Let_def hashes_reactivate Workflow_tbl_log split: option.splits)

lemma hashes_persist:
  "map hash (Workflow_tbl (final (persist E user workflow workflowId tagIds was_active w))) =
     map hash (Workflow_tbl w)"
proof (cases rule: persist_cases [of E workflowId workflow w user tagIds was_active])
  case (rejected e w1)
  with hashes_Workflow_update [of E workflowId "workflow\<lparr>hash := None\<rparr>" w]
  show ?thesis by simp
next
  case (written w1)
  with hashes_Workflow_update [of E workflowId "workflow\<lparr>hash := None\<rparr>" w]
  show ?thesis by (simp add: hashes_reloaded Workflow_tbl_syncTags)
qed

lemma hashes_normalized:
  "map hash (Workflow_tbl (final (normalized E user workflow workflowId tagIds was_active w))) =
     map hash (Workflow_tbl w)"
  using normalized_cases [of E user workflow workflowId tagIds was_active w]
  by (auto simp: hashes_persist)

lemma hashes_authorized:
  "map hash (Workflow_tbl (final (authorized E user workflow workflowId tagIds shared w))) =
     map hash (Workflow_tbl w)"
  by (simp add: authorized_def Let_def hashes_normalized Workflow_tbl_log split: option.splits)

lemma first_write_persist:
  "take 1 (filter is_Update (issued w (persist E user workflow workflowId tagIds was_active w))) =
     [Update workflowId (workflow\<lparr>hash := None\<rparr>)]"
proof (cases rule: persist_cases [of E workflowId workflow w user tagIds was_active])
  case (rejected e w1)
  from Workflow_update_calls [OF rejected(1)] rejected(2)
  have "calls (final (persist E user workflow workflowId tagIds was_active w)) =
      calls w @ [Update workflowId (workflow\<lparr>hash := None\<rparr>)]"
    by simp
  from issued_stop(1) [OF this] show ?thesis by simp
next
  case (written w1)
  let ?w2 = "syncTags E workflowId tagIds w1"
  let ?out = "persist E user workflow workflowId tagIds was_active w"
  have "extends ?w2 ?out"
    unfolding written(2) by (rule extends_reloaded)
  then have "extends w1 ?out"
    by (rule issued_step(2) [OF calls_syncTags])
  from issued_step(1) [OF Workflow_update_calls [OF written(1)] this]
  show ?thesis by simp
qed

lemma first_write_normalized:
  "take 1 (filter is_Update (issued w (normalized E user workflow workflowId tagIds was_active w))) = [] \<or>
   take 1 (filter is_Update (issued w (normalized E user workflow workflowId tagIds was_active w))) =
     [Update workflowId (normalizeWorkflow E workflow\<lparr>hash := None\<rparr>)] \<or>
   take 1 (filter is_Update (issued w (normalized E user workflow workflowId tagIds was_active w))) =
     [Update workflowId (normalizeWorkflow E workflow\<lparr>updatedAt := Some (now E), hash := None\<rparr>)]"
proof -
  let ?wf = "normalizeWorkflow E workflow"
  let ?wf' = "?wf\<lparr>updatedAt := Some (now E)\<rparr>"
  let ?out = "normalized E user workflow workflowId tagIds was_active w"
  consider (plain) "?out = persist E user ?wf workflowId tagIds was_active w"
    | (stamped) "?out = persist E user ?wf' workflowId tagIds was_active w"
    | (invalid) "final ?out = w"
    using normalized_cases [of E user workflow workflowId tagIds was_active w] by blast
  then show ?thesis
  proof cases
    case plain
    then show ?thesis using first_write_persist [of w E user ?wf workflowId tagIds was_active]
      by simp
  next
    case stamped
    then show ?thesis using first_write_persist [of w E user ?wf' workflowId tagIds was_active]
      by simp
  next
    case invalid
    then show ?thesis by (simp add: issued_def)
  qed
qed

text \<open>
  Claim C10. The first write that \<open>updateWorkflow\<close> issues is keyed by the workflow id
  and carries the normalized entity, with its update time when it has a name, without the
  hash. No write of the call persists a hash: the stored hashes are after the call what
  they were before it. (The write of line 278 passes the entity with its hash, and the
  store rejects such a write.)
\<close>

theorem updateWorkflow_hash_not_persisted:
  "map hash (Workflow_tbl (final (updateWorkflow E user workflow workflowId tagIds w))) =
     map hash (Workflow_tbl w) \<and>
   (take 1 (filter is_Update (issued w (updateWorkflow E user workflow workflowId tagIds w))) = [] \<or>
    take 1 (filter is_Update (issued w (updateWorkflow E user workflow workflowId tagIds w))) =
      [Update workflowId
        (normalizeWorkflow E (addNodeIds E (replaceInvalidCredentials E workflow))
           \<lparr>hash := None\<rparr>)] \<or>
    take 1 (filter is_Update (issued w (updateWorkflow E user workflow workflowId tagIds w))) =
      [Update workflowId
        (normalizeWorkflow E (addNodeIds E (replaceInvalidCredentials E workflow))
           \<lparr>updatedAt := Some (now E), hash := None\<rparr>)])"
proof (cases "SharedWorkflow_findOne E (whereClause E user workflowId) [''workflow''] w")
  case None
  then have "final (updateWorkflow E user workflow workflowId tagIds w) = w"
    by (simp add: updateWorkflow_def)
  then show ?thesis by (simp add: issued_def)
next
  case (Some shared)
  let ?out = "updateWorkflow E user workflow workflowId tagIds w"
  let ?wf = "addNodeIds E (replaceInvalidCredentials E workflow)"
  let ?w1 = "log (Hook ''workflow.update'') w"
  let ?w2 = "log (Remove workflowId) ?w1"
  from Some have eq: "?out = authorized E user workflow workflowId tagIds shared w"
    by (simp add: updateWorkflow_def)
  have h: "map hash (Workflow_tbl (final ?out)) = map hash (Workflow_tbl w)"
    unfolding eq by (rule hashes_authorized)
  from authorized_cases [where E = E and ?workflow0.0 = workflow and user = user
      and workflowId = workflowId and tagIds = tagIds and shared = shared and w = w, folded eq]
  consider "issued w ?out = [Hook ''workflow.update'']"
    | "issued w ?out = [Hook ''workflow.update'', Remove workflowId]"
    | "?out = normalized E user ?wf workflowId tagIds True ?w2"
      "issued w ?out = [Hook ''workflow.update'', Remove workflowId] @ issued ?w2 ?out"
    | "?out = normalized E user ?wf workflowId tagIds False ?w1"
      "issued w ?out = [Hook ''workflow.update''] @ issued ?w1 ?out"
    by blast
  then have "take 1 (filter is_Update (issued w ?out)) = [] \<or>
    take 1 (filter is_Update (issued w ?out)) =
      [Update workflowId (normalizeWorkflow E ?wf\<lparr>hash := None\<rparr>)] \<or>
    take 1 (filter is_Update (issued w ?out)) =
      [Update workflowId (normalizeWorkflow E ?wf\<lparr>updatedAt := Some (now E), hash := None\<rparr>)]"
  proof cases
    case 1
    then show ?thesis by simp
  next
    case 2
    then show ?thesis by simp
  next
    case 3
    have "filter is_Update (issued w ?out) =
        filter is_Update (issued ?w2 (normalized E user ?wf workflowId tagIds True ?w2))"
      using 3 by simp
    with first_write_normalized [of ?w2 E user ?wf workflowId tagIds True]
    show ?thesis by simp
  next
    case 4
    have "filter is_Update (issued w ?out) =
        filter is_Update (issued ?w1 (normalized E user ?wf workflowId tagIds False ?w1))"
      using 4 by simp
    with first_write_normalized [of ?w1 E user ?wf workflowId tagIds False]
    show ?thesis by simp
  qed
  with h show ?thesis by simp
qed

theorem updateWorkflow_hash_not_persisted_witness:
  "map hash (Workflow_tbl
     (final (updateWorkflow failing_env alice proposal ''1'' None demo_world))) =
     [Some ''h0'', Some ''h0'', Some ''h0''] \<and>
   map (\<lambda>c. case c of Update i p \<Rightarrow> hash p | _ \<Rightarrow> None)
     (filter is_Update
       (issued demo_world (updateWorkflow failing_env alice proposal ''1'' None demo_world))) =
     [None, Some ''h1'']"
proof -
  have "filter is_Update
       (issued demo_world (updateWorkflow failing_env alice proposal ''1'' None demo_world)) =
     [Update ''1'' (proposal\<lparr>settings := Some [], hash := None, updatedAt := Some 1000\<rparr>),
      Update ''1'' (proposal\<lparr>settings := Some [], active := Some False, updatedAt := Some 1000\<rparr>)]"
    by (simp add: failing_run_calls)
  then have 2: "map (\<lambda>c. case c of Update i p \<Rightarrow> hash p | _ \<Rightarrow> None)
     (filter is_Update
       (issued demo_world (updateWorkflow failing_env alice proposal ''1'' None demo_world))) =
     [None, Some ''h1'']"
    by (simp add: proposal_def)
  have 3: "map hash (Workflow_tbl demo_world) = [Some ''h0'', Some ''h0'', Some ''h0'']"
    by (simp add: demo_world_def demo_row_def)
  from updateWorkflow_hash_not_persisted [of failing_env alice proposal "''1''" None demo_world]
    2 3 show ?thesis by simp
qed

end
